theory Spec2Isabelle
  imports Complex_Main
begin

section \<open>Python values and the operations the scripts apply to them\<close>

text \<open>
  The scripts handle dynamically typed data: the dictionary that \<^verbatim>\<open>json.load\<close> returns,
  tuples built from it, brick type strings. \<open>pyval\<close> is the universe of these values. A
  dictionary is an association list in insertion order (the order \<^verbatim>\<open>.items()\<close> iterates
  in); the keys of a parsed JSON object are strings and pairwise distinct. A float is
  carried as the real number it denotes: none of the modelled code computes with one.
  A string is the list of its code points, and a \<open>char\<close> is a code point below 256: text
  with a code point from 256 on is outside the model.
\<close>

datatype pyval =
    PNone
  | PBool bool
  | PInt int
  | PFloat real
  | PStr string
  | PList "pyval list"
  | PTuple "pyval list"
  | PDict "(string \<times> pyval) list"

text \<open>
  The exceptions of the modelled code, as values. \<open>External\<close> is an exception raised
  inside a collaborator that is not part of the scripts (the geometry source, the
  composite-brick parser).
\<close>

datatype error =
    KeyError pyval
  | TypeError
  | AttributeError
  | ValueError
  | IndexError
  | External string

fun and_then :: "error + 'a \<Rightarrow> ('a \<Rightarrow> error + 'b) \<Rightarrow> error + 'b" where
  "and_then (Inl e) f = Inl e"
| "and_then (Inr v) f = f v"

text \<open>\<^verbatim>\<open>v[k]\<close> for a string key \<open>k\<close>: only a dictionary accepts it.\<close>

fun getitem :: "pyval \<Rightarrow> string \<Rightarrow> error + pyval" where
  "getitem (PDict kvs) k =
     (case map_of kvs k of Some v \<Rightarrow> Inr v | None \<Rightarrow> Inl (KeyError (PStr k)))"
| "getitem _ k = Inl TypeError"

text \<open>\<^verbatim>\<open>v[j]\<close> for an index \<open>j\<close> that comes from \<^verbatim>\<open>range(len(v))\<close>, so \<open>j\<close> is not negative.\<close>

fun getitem_index :: "pyval \<Rightarrow> nat \<Rightarrow> error + pyval" where
  "getitem_index (PList xs) j = (if j < length xs then Inr (xs ! j) else Inl IndexError)"
| "getitem_index (PTuple xs) j = (if j < length xs then Inr (xs ! j) else Inl IndexError)"
| "getitem_index (PStr s) j = (if j < length s then Inr (PStr [s ! j]) else Inl IndexError)"
| "getitem_index (PDict kvs) j = Inl (KeyError (PInt (int j)))"
| "getitem_index _ j = Inl TypeError"

text \<open>\<^verbatim>\<open>v.items()\<close>.\<close>

fun items :: "pyval \<Rightarrow> error + (string \<times> pyval) list" where
  "items (PDict kvs) = Inr kvs"
| "items _ = Inl AttributeError"

text \<open>\<^verbatim>\<open>len(v)\<close>.\<close>

fun py_len :: "pyval \<Rightarrow> error + nat" where
  "py_len (PList xs) = Inr (length xs)"
| "py_len (PTuple xs) = Inr (length xs)"
| "py_len (PStr s) = Inr (length s)"
| "py_len (PDict kvs) = Inr (length kvs)"
| "py_len _ = Inl TypeError"

fun substring_of :: "string \<Rightarrow> string \<Rightarrow> bool" where
  "substring_of k [] = (k = [])"
| "substring_of k (c # cs) = (take (length k) (c # cs) = k \<or> substring_of k cs)"

text \<open>\<^verbatim>\<open>k in v\<close> for a string \<open>k\<close>.\<close>

fun contains :: "string \<Rightarrow> pyval \<Rightarrow> error + bool" where
  "contains k (PDict kvs) = Inr (k \<in> set (map fst kvs))"
| "contains k (PList xs) = Inr (PStr k \<in> set xs)"
| "contains k (PTuple xs) = Inr (PStr k \<in> set xs)"
| "contains k (PStr s) = Inr (substring_of k s)"
| "contains k _ = Inl TypeError"

text \<open>\<^verbatim>\<open>tuple(v)\<close>: the components of the tuple.\<close>

fun py_tuple :: "pyval \<Rightarrow> error + pyval list" where
  "py_tuple (PList xs) = Inr xs"
| "py_tuple (PTuple xs) = Inr xs"
| "py_tuple (PStr s) = Inr (map (\<lambda>c. PStr [c]) s)"
| "py_tuple (PDict kvs) = Inr (map (\<lambda>kv. PStr (fst kv)) kvs)"
| "py_tuple _ = Inl TypeError"

text \<open>\<^verbatim>\<open>xs[i]\<close> on a list, for an index that is not negative.\<close>

definition py_index :: "'a list \<Rightarrow> nat \<Rightarrow> error + 'a" where
  "py_index xs i = (if i < length xs then Inr (xs ! i) else Inl IndexError)"

subsection \<open>\<^verbatim>\<open>int(s)\<close> on a string\<close>

text \<open>
  CPython converts a string in two steps. The first
  (\<^verbatim>\<open>_PyUnicode_TransformDecimalAndSpaceToASCII\<close>) leaves the code points below 127 as
  they are and turns every other code point that is Unicode whitespace into a blank;
  below 256 these are the code points 133 and 160. (The non-ASCII decimal digits it also
  translates all lie above 255.) The second (\<^verbatim>\<open>PyLong_FromString\<close>) skips the whitespace
  of C, code points 9 to 13 and 32, at both ends, accepts one sign, and then wants decimal
  digits to the end of the string, where single underscores may stand between two
  digits. With more than \<^verbatim>\<open>sys.int_max_str_digits\<close> digits, 4300 unless the interpreter
  is configured otherwise (CPython 3.11), the conversion is refused. Every refusal is a
  ValueError, \<open>None\<close> here.
\<close>

definition space_to_ascii :: "char \<Rightarrow> char" where
  "space_to_ascii c =
     (let n = (of_char c :: nat) in if n = 133 \<or> n = 160 then CHR '' '' else c)"

definition is_space :: "char \<Rightarrow> bool" where
  "is_space c = (let n = (of_char c :: nat) in (9 \<le> n \<and> n \<le> 13) \<or> n = 32)"

definition is_digit :: "char \<Rightarrow> bool" where
  "is_digit c = (let n = (of_char c :: nat) in 48 \<le> n \<and> n \<le> 57)"

definition digit_value :: "char \<Rightarrow> int" where
  "digit_value c = int (of_char c) - 48"

definition strip :: "string \<Rightarrow> string" where
  "strip s = rev (dropWhile is_space (rev (dropWhile is_space s)))"

fun parse_digits :: "bool \<Rightarrow> int \<Rightarrow> string \<Rightarrow> int option" where
  "parse_digits after_digit acc [] = (if after_digit then Some acc else None)"
| "parse_digits after_digit acc (c # cs) =
     (if is_digit c then parse_digits True (10 * acc + digit_value c) cs
      else if c = CHR ''_'' \<and> after_digit then parse_digits False acc cs
      else None)"

definition int_max_str_digits :: nat where
  "int_max_str_digits = 4300"

definition parse_number :: "string \<Rightarrow> int option" where
  "parse_number s =
     (if length (filter is_digit s) > int_max_str_digits then None
      else parse_digits False 0 s)"

definition py_int :: "string \<Rightarrow> int option" where
  "py_int s =
     (case strip (map space_to_ascii s) of
        [] \<Rightarrow> None
      | c # cs \<Rightarrow>
          if c = CHR ''-'' then map_option uminus (parse_number cs)
          else if c = CHR ''+'' then parse_number cs
          else parse_number (c # cs))"

section \<open>Bricks and meshes\<close>

text \<open>
  \<^verbatim>\<open>Brick(brick_type, position, rotation)\<close> of \<^verbatim>\<open>bricks.brick_info\<close>: the scripts only
  construct bricks and hand them on, so a brick is the triple it was built from.
\<close>

datatype brick = Brick (the_type: pyval) (the_position: pyval) (the_rotation: pyval)

text \<open>A colour is the component list of an RGB tuple; \<open>None\<close> is Python's \<^verbatim>\<open>None\<close>.\<close>

type_synonym color = "pyval list"

text \<open>
  A \<^verbatim>\<open>trimesh.Trimesh\<close>, as far as the scripts look at it: its vertex array and its
  face array (triples of vertex indices).
\<close>

record mesh =
  vertices :: "(real \<times> real \<times> real) list"
  faces :: "(nat \<times> nat \<times> nat) list"

definition faces_in_bounds :: "mesh \<Rightarrow> bool" where
  "faces_in_bounds m =
     list_all (\<lambda>(a, b, c). a < length (vertices m) \<and> b < length (vertices m) \<and> c < length (vertices m))
       (faces m)"

text \<open>
  The geometry collaborator \<^verbatim>\<open>brick2mesh(brick, color=color)\<close> lives in \<^verbatim>\<open>bricks.bricks\<close>,
  outside the scripts: every definition below takes it as the parameter \<open>brick2mesh\<close>, a
  function that returns a mesh or raises.
\<close>

type_synonym brick2mesh = "brick \<Rightarrow> color option \<Rightarrow> error + mesh"

section \<open>\<^verbatim>\<open>export_to_blender.py\<close>: bricks to meshes\<close>

definition export_brick_to_mesh :: "brick2mesh \<Rightarrow> brick \<Rightarrow> color option \<Rightarrow> error + mesh" where
  "export_brick_to_mesh brick2mesh brick color = brick2mesh brick color"

text \<open>
  \<^verbatim>\<open>color = colors[i] if colors and i < len(colors) else None\<close>: \<^verbatim>\<open>colors\<close> is falsy when it
  is \<^verbatim>\<open>None\<close> or the empty list.
\<close>

definition select_color :: "color option list option \<Rightarrow> nat \<Rightarrow> error + color option" where
  "select_color colors i =
     (case colors of
        None \<Rightarrow> Inr None
      | Some cs \<Rightarrow> if cs \<noteq> [] \<and> i < length cs then py_index cs i else Inr None)"

text \<open>
  The loop \<^verbatim>\<open>for i, brick in enumerate(bricks)\<close> of \<^verbatim>\<open>export_bricks_to_mesh\<close>: \<open>i\<close> is the
  running index, the last argument is the list \<^verbatim>\<open>meshes\<close> built so far.
\<close>

fun mesh_loop ::
  "brick2mesh \<Rightarrow> color option list option \<Rightarrow> nat \<Rightarrow> brick list \<Rightarrow> mesh list \<Rightarrow> error + mesh list"
where
  "mesh_loop brick2mesh colors i [] meshes = Inr meshes"
| "mesh_loop brick2mesh colors i (brick # rest) meshes =
     and_then (select_color colors i) (\<lambda>color.
     and_then (export_brick_to_mesh brick2mesh brick color) (\<lambda>mesh.
     mesh_loop brick2mesh colors (i + 1) rest (meshes @ [mesh])))"

text \<open>
  Modelled from the spec: \<^verbatim>\<open>trimesh.util.concatenate\<close>, a function of the trimesh library
  and not of the scripts. Section 4.4: "accumulate all transformed meshes into one mesh by
  concatenating vertex lists and re-indexing each mesh's face indices by the cumulative
  vertex-count offset seen so far, preserving input record order"; "zero input records
  yields an empty merged mesh (zero vertices, zero faces)".
\<close>

definition empty_mesh :: mesh where
  "empty_mesh = \<lparr>vertices = [], faces = []\<rparr>"

definition reindex :: "nat \<Rightarrow> (nat \<times> nat \<times> nat) list \<Rightarrow> (nat \<times> nat \<times> nat) list" where
  "reindex offset fs = map (\<lambda>(a, b, c). (a + offset, b + offset, c + offset)) fs"

definition accumulate :: "mesh \<Rightarrow> mesh \<Rightarrow> mesh" where
  "accumulate merged m =
     \<lparr>vertices = vertices merged @ vertices m,
      faces = faces merged @ reindex (length (vertices merged)) (faces m)\<rparr>"

definition concatenate :: "mesh list \<Rightarrow> mesh" where
  "concatenate meshes = foldl accumulate empty_mesh meshes"

text \<open>The function returns one mesh or a list of meshes, depending on \<^verbatim>\<open>merge\<close>.\<close>

datatype exported = Merged mesh | Separate "mesh list"

definition export_bricks_to_mesh ::
  "brick2mesh \<Rightarrow> brick list \<Rightarrow> color option list option \<Rightarrow> bool \<Rightarrow> error + exported"
where
  "export_bricks_to_mesh brick2mesh bricks colors merge =
     and_then (mesh_loop brick2mesh colors 0 bricks []) (\<lambda>meshes.
       if merge then Inr (Merged (concatenate meshes)) else Inr (Separate meshes))"

subsection \<open>\<^verbatim>\<open>export_to_file\<close>\<close>

text \<open>
  \<^verbatim>\<open>os.path.splitext\<close> and \<^verbatim>\<open>os.path.dirname\<close>, as \<^verbatim>\<open>posixpath\<close> defines them: the separator
  is \<open>/\<close>, there is no alternative separator, the extension separator is the dot.
  \<open>rfind\<close> is \<^verbatim>\<open>str.rfind\<close> for one character: the last position of it, or \<open>-1\<close>.
\<close>

definition rfind :: "char \<Rightarrow> string \<Rightarrow> int" where
  "rfind c s =
     (if c \<in> set s then int (length s) - 1 - int (length (takeWhile (\<lambda>x. x \<noteq> c) (rev s)))
      else - 1)"

text \<open>
  The loop of \<^verbatim>\<open>genericpath._splitext\<close> that skips the leading dots of the file name:
  \<^verbatim>\<open>
    while filenameIndex < dotIndex:
        if p[filenameIndex:filenameIndex+1] != extsep:
            return p[:dotIndex], p[dotIndex:]
        filenameIndex += 1
    return p, p[:0]
  \<close>
\<close>

function skip_leading_dots :: "string \<Rightarrow> nat \<Rightarrow> nat \<Rightarrow> string \<times> string" where
  "skip_leading_dots p filenameIndex dotIndex =
     (if filenameIndex < dotIndex then
        (if take 1 (drop filenameIndex p) \<noteq> ''.'' then (take dotIndex p, drop dotIndex p)
         else skip_leading_dots p (filenameIndex + 1) dotIndex)
      else (p, []))"
  by pat_completeness auto
termination
  by (relation "measure (\<lambda>(p, filenameIndex, dotIndex). dotIndex - filenameIndex)") auto

declare skip_leading_dots.simps [simp del]

definition splitext :: "string \<Rightarrow> string \<times> string" where
  "splitext p =
     (let sepIndex = rfind CHR ''/'' p;
          dotIndex = rfind CHR ''.'' p
      in if dotIndex > sepIndex then skip_leading_dots p (nat (sepIndex + 1)) (nat dotIndex)
         else (p, []))"

definition rstrip :: "char \<Rightarrow> string \<Rightarrow> string" where
  "rstrip c s = rev (dropWhile (\<lambda>x. x = c) (rev s))"

definition dirname :: "string \<Rightarrow> string" where
  "dirname p =
     (let i = nat (rfind CHR ''/'' p + 1);
          head = take i p
      in if head \<noteq> [] \<and> head \<noteq> replicate (length head) CHR ''/'' then rstrip CHR ''/'' head
         else head)"

text \<open>
  \<^verbatim>\<open>str.lower\<close>. Below 256 the upper-case letters are the code points 65 to 90 and 192
  to 222 without 215 (the multiplication sign), each 32 below its lower-case letter.
\<close>

definition lower_char :: "char \<Rightarrow> char" where
  "lower_char c =
     (let n = (of_char c :: nat)
      in if (65 \<le> n \<and> n \<le> 90) \<or> (192 \<le> n \<and> n \<le> 222 \<and> n \<noteq> 215) then char_of (n + 32)
         else c)"

definition lower :: "string \<Rightarrow> string" where
  "lower s = map lower_char s"

text \<open>
  \<^verbatim>\<open>export_to_file\<close> acts on the outside world, and both \<^verbatim>\<open>os.makedirs\<close> and
  \<^verbatim>\<open>mesh.export\<close> (of trimesh) can raise. The two are parameters: each tells, for the
  arguments of a call, whether the call returns (\<open>None\<close>) or which exception it raises.
  The function returns the calls it made, in order, and the exception it ended with, if
  any. \<open>Export mesh path None\<close> is the call \<^verbatim>\<open>mesh.export(output_path)\<close> of the last
  branch, without a file type. \<open>Report\<close> stands for the four \<^verbatim>\<open>print\<close> lines at the end
  (path, format, number of vertices, number of faces), which run only after
  \<^verbatim>\<open>mesh.export\<close> has returned.
\<close>

datatype event =
    Makedirs string
  | Export mesh string "string option"
  | Report string string nat nat

type_synonym makedirs = "string \<Rightarrow> error option"

type_synonym mesh_export = "mesh \<Rightarrow> string \<Rightarrow> string option \<Rightarrow> error option"

definition export_to_file ::
  "makedirs \<Rightarrow> mesh_export \<Rightarrow> mesh \<Rightarrow> string \<Rightarrow> string option \<Rightarrow> event list \<times> error option"
where
  "export_to_file makedirs mesh_export mesh output_path format =
     (let format = (case format of
                      None \<Rightarrow> lower (drop 1 (snd (splitext output_path)))
                    | Some f \<Rightarrow> f);
          directory = (if dirname output_path \<noteq> [] then dirname output_path else ''.'')
      in case makedirs directory of
           Some e \<Rightarrow> ([Makedirs directory], Some e)
         | None \<Rightarrow>
             (let file_type =
                    (if format = ''obj'' then Some ''obj''
                     else if format = ''ply'' then Some ''ply''
                     else if format = ''stl'' then Some ''stl''
                     else if format = ''glb'' \<or> format = ''gltf'' then Some ''glb''
                     else None)
              in case mesh_export mesh output_path file_type of
                   Some e \<Rightarrow> ([Makedirs directory, Export mesh output_path file_type], Some e)
                 | None \<Rightarrow>
                     ([Makedirs directory, Export mesh output_path file_type,
                       Report output_path format (length (vertices mesh)) (length (faces mesh))],
                      None)))"

subsection \<open>\<^verbatim>\<open>export_from_json\<close>\<close>

text \<open>
  \<^verbatim>\<open>dict_to_cbrick(b_step[j], no_check=False)\<close> lives in \<^verbatim>\<open>bricks.brick_info\<close>, outside the
  scripts, and the scripts read only the \<^verbatim>\<open>bricks\<close> attribute of what it returns. The
  definitions take it as the parameter \<open>dict_to_cbrick\<close>: from a composite entry to the
  list \<^verbatim>\<open>cbrick.bricks\<close>, or an exception.
\<close>

type_synonym dict_to_cbrick = "pyval \<Rightarrow> error + brick list"

text \<open>The two lists \<^verbatim>\<open>bricks\<close> and \<^verbatim>\<open>colors\<close> that the loops append to.\<close>

type_synonym collected = "brick list \<times> color option list"

text \<open>
  The colour appended for an entry:
  \<^verbatim>\<open>tuple(b_step[j]['color'])\<close> if \<^verbatim>\<open>with_colors and 'color' in b_step[j]\<close>, else \<^verbatim>\<open>None\<close>.
\<close>

definition entry_color :: "bool \<Rightarrow> pyval \<Rightarrow> error + color option" where
  "entry_color with_colors entry =
     (if with_colors then
        and_then (contains ''color'' entry) (\<lambda>has_color.
          if has_color then
            and_then (getitem entry ''color'') (\<lambda>c.
            and_then (py_tuple c) (\<lambda>t. Inr (Some t)))
          else Inr None)
      else Inr None)"

text \<open>\<^verbatim>\<open>for sub_brick in cbrick.bricks\<close>.\<close>

fun expand_loop :: "bool \<Rightarrow> pyval \<Rightarrow> brick list \<Rightarrow> collected \<Rightarrow> error + collected" where
  "expand_loop with_colors entry [] (bricks, colors) = Inr (bricks, colors)"
| "expand_loop with_colors entry (sub_brick # rest) (bricks, colors) =
     and_then (entry_color with_colors entry) (\<lambda>color.
     expand_loop with_colors entry rest (bricks @ [sub_brick], colors @ [color]))"

text \<open>The body of \<^verbatim>\<open>for j in range(len(b_step))\<close>, for one \<open>j\<close>.\<close>

definition process_entry ::
  "dict_to_cbrick \<Rightarrow> bool \<Rightarrow> pyval \<Rightarrow> nat \<Rightarrow> collected \<Rightarrow> error + collected"
where
  "process_entry dict_to_cbrick with_colors b_step j acc =
     and_then (getitem_index b_step j) (\<lambda>entry.
     and_then (getitem entry ''brick_transform'') (\<lambda>brick_transform.
     and_then (getitem brick_transform ''rotation'') (\<lambda>rotation.
     and_then (getitem brick_transform ''position'') (\<lambda>position.
     and_then (contains ''brick_type'' entry) (\<lambda>has_type.
       if has_type then
         and_then (getitem entry ''brick_type'') (\<lambda>brick_type.
         and_then (entry_color with_colors entry) (\<lambda>color.
           Inr (fst acc @ [Brick brick_type position rotation], snd acc @ [color])))
       else
         and_then (dict_to_cbrick entry) (\<lambda>cbrick_bricks.
           expand_loop with_colors entry cbrick_bricks acc))))))"

fun entries_loop ::
  "dict_to_cbrick \<Rightarrow> bool \<Rightarrow> pyval \<Rightarrow> nat list \<Rightarrow> collected \<Rightarrow> error + collected"
where
  "entries_loop dict_to_cbrick with_colors b_step [] acc = Inr acc"
| "entries_loop dict_to_cbrick with_colors b_step (j # js) acc =
     and_then (process_entry dict_to_cbrick with_colors b_step j acc)
       (entries_loop dict_to_cbrick with_colors b_step js)"

text \<open>One step: \<^verbatim>\<open>for j in range(len(b_step))\<close>.\<close>

definition process_step ::
  "dict_to_cbrick \<Rightarrow> bool \<Rightarrow> pyval \<Rightarrow> collected \<Rightarrow> error + collected"
where
  "process_step dict_to_cbrick with_colors b_step acc =
     and_then (py_len b_step) (\<lambda>n.
       entries_loop dict_to_cbrick with_colors b_step [0..<n] acc)"

text \<open>
  The guard \<^verbatim>\<open>only_final and int(i_str) != len(data['operations']) - 1\<close>: \<^verbatim>\<open>and\<close> evaluates
  its right side only when \<^verbatim>\<open>only_final\<close> holds, and \<^verbatim>\<open>int\<close> is called before the length
  is taken.
\<close>

definition skip_step :: "pyval \<Rightarrow> bool \<Rightarrow> string \<Rightarrow> error + bool" where
  "skip_step data only_final i_str =
     (if only_final then
        (case py_int i_str of
           None \<Rightarrow> Inl ValueError
         | Some i \<Rightarrow>
             and_then (getitem data ''operations'') (\<lambda>operations.
             and_then (py_len operations) (\<lambda>n. Inr (i \<noteq> int n - 1))))
      else Inr False)"

text \<open>\<^verbatim>\<open>for i_str, op in data['operations'].items()\<close>.\<close>

fun operations_loop ::
  "dict_to_cbrick \<Rightarrow> pyval \<Rightarrow> bool \<Rightarrow> bool \<Rightarrow> (string \<times> pyval) list \<Rightarrow> collected
     \<Rightarrow> error + collected"
where
  "operations_loop dict_to_cbrick data only_final with_colors [] acc = Inr acc"
| "operations_loop dict_to_cbrick data only_final with_colors ((i_str, op) # rest) acc =
     and_then (skip_step data only_final i_str) (\<lambda>skip.
       if skip then operations_loop dict_to_cbrick data only_final with_colors rest acc
       else
         and_then (getitem op ''bricks'') (\<lambda>b_step.
         and_then (process_step dict_to_cbrick with_colors b_step acc)
           (operations_loop dict_to_cbrick data only_final with_colors rest)))"

text \<open>
  The part of \<^verbatim>\<open>export_from_json\<close> that fills \<^verbatim>\<open>bricks\<close> and \<^verbatim>\<open>colors\<close>; \<open>data\<close> is what
  \<^verbatim>\<open>json.load\<close> returned.
\<close>

definition collect_bricks ::
  "dict_to_cbrick \<Rightarrow> pyval \<Rightarrow> bool \<Rightarrow> bool \<Rightarrow> error + collected"
where
  "collect_bricks dict_to_cbrick data only_final with_colors =
     and_then (getitem data ''operations'') (\<lambda>operations.
     and_then (items operations) (\<lambda>its.
       operations_loop dict_to_cbrick data only_final with_colors its ([], [])))"

text \<open>
  The whole function: the calls it makes on the outside world and the exception it ends
  with, if any. Nothing is exported when collecting the bricks or building the mesh
  raises. A list has no \<^verbatim>\<open>export\<close> method, hence the last branch, which \<^verbatim>\<open>merge=True\<close>
  never reaches.
\<close>

definition export_from_json ::
  "dict_to_cbrick \<Rightarrow> brick2mesh \<Rightarrow> makedirs \<Rightarrow> mesh_export \<Rightarrow> pyval \<Rightarrow> string \<Rightarrow> bool \<Rightarrow> bool
     \<Rightarrow> event list \<times> error option"
where
  "export_from_json dict_to_cbrick brick2mesh makedirs mesh_export data output_path
       only_final with_colors =
     (case collect_bricks dict_to_cbrick data only_final with_colors of
        Inl e \<Rightarrow> ([], Some e)
      | Inr collected \<Rightarrow>
          (case export_bricks_to_mesh brick2mesh (fst collected)
                  (if with_colors then Some (snd collected) else None) True of
             Inl e \<Rightarrow> ([], Some e)
           | Inr (Merged mesh) \<Rightarrow> export_to_file makedirs mesh_export mesh output_path None
           | Inr (Separate meshes) \<Rightarrow> ([], Some AttributeError)))"

section \<open>\<^verbatim>\<open>interactive_bricks.py\<close>: \<^verbatim>\<open>create_custom_assembly\<close>\<close>

definition identity_rotation :: pyval where
  "identity_rotation = PTuple [PInt 1, PInt 0, PInt 0, PInt 0]"

text \<open>
  The two guards at the head of the function: a missing rotation list, and then one of the
  wrong length, are replaced by \<^verbatim>\<open>[(1, 0, 0, 0)] * len(brick_types)\<close>.
\<close>

definition default_rotations :: "pyval list \<Rightarrow> pyval list option \<Rightarrow> pyval list" where
  "default_rotations brick_types rotations =
     (let rotations = (case rotations of
                         None \<Rightarrow> replicate (length brick_types) identity_rotation
                       | Some rs \<Rightarrow> rs)
      in if length rotations \<noteq> length brick_types
         then replicate (length brick_types) identity_rotation
         else rotations)"

text \<open>
  \<^verbatim>\<open>for i, (brick_type, pos, rot) in enumerate(zip(brick_types, positions, rotations))\<close>,
  appending \<^verbatim>\<open>Brick(brick_type, pos, rot)\<close> to \<^verbatim>\<open>bricks\<close>.
\<close>

fun assembly_loop :: "(pyval \<times> pyval \<times> pyval) list \<Rightarrow> brick list \<Rightarrow> brick list" where
  "assembly_loop [] bricks = bricks"
| "assembly_loop ((brick_type, pos, rot) # rest) bricks =
     assembly_loop rest (bricks @ [Brick brick_type pos rot])"

definition assembly_bricks :: "pyval list \<Rightarrow> pyval list \<Rightarrow> pyval list option \<Rightarrow> brick list" where
  "assembly_bricks brick_types positions rotations =
     assembly_loop (zip brick_types (zip positions (default_rotations brick_types rotations))) []"

text \<open>
  The function itself hands the bricks to the renderer \<^verbatim>\<open>visualize_bricks\<close> of
  \<^verbatim>\<open>debug.utils\<close>, a parameter here, and returns its image; saving and showing the image
  do not change what is returned.
\<close>

definition create_custom_assembly ::
  "(brick list \<Rightarrow> bool \<Rightarrow> bool \<Rightarrow> 'image) \<Rightarrow> pyval list \<Rightarrow> pyval list \<Rightarrow> pyval list option
     \<Rightarrow> bool \<Rightarrow> 'image"
where
  "create_custom_assembly visualize_bricks brick_types positions rotations highlight =
     visualize_bricks (assembly_bricks brick_types positions rotations) highlight True"

section \<open>What an entry of a step contributes\<close>

text \<open>
  The record of a primitive entry, with the lookups in the order of the source: the
  rotation, the position, then the type.
\<close>

definition primitive_brick :: "pyval \<Rightarrow> error + brick" where
  "primitive_brick entry =
     and_then (getitem entry ''brick_transform'') (\<lambda>brick_transform.
     and_then (getitem brick_transform ''rotation'') (\<lambda>rotation.
     and_then (getitem brick_transform ''position'') (\<lambda>position.
     and_then (getitem entry ''brick_type'') (\<lambda>brick_type.
       Inr (Brick brick_type position rotation)))))"

text \<open>
  The assembly builder in the words of the spec (section 4.3): "composite entries are
  expanded, primitive entries pass through". The theorems below compare the loops of
  \<^verbatim>\<open>export_from_json\<close> with it.
\<close>

definition entry_records :: "dict_to_cbrick \<Rightarrow> pyval \<Rightarrow> error + brick list" where
  "entry_records dict_to_cbrick entry =
     (if contains ''brick_type'' entry = Inr True
      then and_then (primitive_brick entry) (\<lambda>b. Inr [b])
      else dict_to_cbrick entry)"

definition contributes ::
  "dict_to_cbrick \<Rightarrow> bool \<Rightarrow> pyval \<Rightarrow> brick list \<Rightarrow> color option \<Rightarrow> bool"
where
  "contributes dict_to_cbrick with_colors entry part col \<longleftrightarrow>
     entry_records dict_to_cbrick entry = Inr part \<and>
     (part \<noteq> [] \<longrightarrow> entry_color with_colors entry = Inr col)"

definition paint :: "brick list list \<Rightarrow> color option list \<Rightarrow> color option list" where
  "paint parts cols = concat (map2 (\<lambda>part col. replicate (length part) col) parts cols)"

section \<open>The composite expander\<close>

text \<open>
  Modelled from the spec: \<^verbatim>\<open>dict_to_cbrick\<close> of \<^verbatim>\<open>bricks.brick_info\<close>, which is not among
  the scripts. Section 4.2 (Composite Expander): the input is a composite definition,
  "possibly nested arbitrarily deep", with "the transform in effect at its root (initially
  identity or the step-level placement transform)"; the output is "a flat,
  order-preserving sequence" of records, "each carrying the fully composed world
  transform (decomposed back into an equivalent position+orientation pair)"; "expansion is
  depth-first, preserving the input ordering at each level"; "a composite with zero
  children expands to an empty sequence (not an error)"; "a malformed composite (a
  sub-entry that is neither a valid PlacementRecord nor a valid CompositeDefinition) fails
  with CompositeExpansionError unless the caller has requested tolerant mode"; the call in
  \<^verbatim>\<open>export_from_json\<close> passes \<^verbatim>\<open>no_check=False\<close>, the strict mode. Section 6: a composite
  entry has "the same shape" as a primitive one, "recursively nested, no brick_type".

  Two things the spec leaves open are parameters: \<open>sub_key\<close>, the name of the field that
  holds the sub-entries of a composite entry, and \<open>compose\<close>, the Transform Composer of
  section 4.1, from the parent's transform and the local transform of a sub-entry to its
  world transform (or an error). A transform has the shape of \<^verbatim>\<open>brick_transform\<close>: a
  dictionary with \<^verbatim>\<open>position\<close> and \<^verbatim>\<open>rotation\<close>. The colour a record inherits is not part of
  a \<open>brick\<close>, and the scripts read only \<^verbatim>\<open>cbrick.bricks\<close>.
\<close>










section \<open>Concrete collaborators and inputs\<close>

text \<open>
  The theorems hold for every geometry source and every composite parser. To run the
  definitions on concrete inputs, this section fixes a small geometry source (two brick
  types, a triangle and a square) and a small composite parser, which reads the
  sub-entries of a composite under the key \<^verbatim>\<open>bricks\<close> and returns them as bricks, in
  order, each with its local transform. Composing the transform of the composite into
  them is the business of the real parser; no theorem below depends on it.
\<close>

definition triangle :: mesh where
  "triangle = \<lparr>vertices = [(0, 0, 0), (1, 0, 0), (0, 1, 0)], faces = [(0, 1, 2)]\<rparr>"

definition square :: mesh where
  "square =
     \<lparr>vertices = [(0, 0, 0), (1, 0, 0), (1, 1, 0), (0, 1, 0)], faces = [(0, 1, 2), (0, 2, 3)]\<rparr>"

definition sample_brick2mesh :: brick2mesh where
  "sample_brick2mesh brick color =
     (if the_type brick = PStr ''3001'' then Inr triangle
      else if the_type brick = PStr ''3002'' then Inr square
      else Inl (External ''unknown brick type''))"

fun all_bricks :: "pyval list \<Rightarrow> error + brick list" where
  "all_bricks [] = Inr []"
| "all_bricks (e # es) =
     and_then (primitive_brick e) (\<lambda>b.
     and_then (all_bricks es) (\<lambda>bs. Inr (b # bs)))"

definition sample_dict_to_cbrick :: dict_to_cbrick where
  "sample_dict_to_cbrick d =
     and_then (getitem d ''bricks'') (\<lambda>subs.
     and_then (py_tuple subs) all_bricks)"

definition at_position :: "int \<Rightarrow> int \<Rightarrow> int \<Rightarrow> pyval" where
  "at_position x y z =
     PDict [(''position'', PList [PInt x, PInt y, PInt z]),
            (''rotation'', PList [PInt 1, PInt 0, PInt 0, PInt 0])]"

definition red :: color where
  "red = [PInt 255, PInt 0, PInt 0]"

definition green :: color where
  "green = [PInt 0, PInt 255, PInt 0]"

definition brick_a :: brick where
  "brick_a = Brick (PStr ''3001'') (PList [PInt 0, PInt 0, PInt 0])
               (PList [PInt 1, PInt 0, PInt 0, PInt 0])"

definition brick_b :: brick where
  "brick_b = Brick (PStr ''3002'') (PList [PInt 0, PInt 0, PInt 8])
               (PList [PInt 1, PInt 0, PInt 0, PInt 0])"

definition entry_a :: pyval where
  "entry_a = PDict [(''brick_type'', PStr ''3001''), (''brick_transform'', at_position 0 0 0)]"

definition entry_b :: pyval where
  "entry_b = PDict [(''brick_type'', PStr ''3002''), (''brick_transform'', at_position 0 0 8)]"

text \<open>The leaf \<open>entry_a\<close> with a colour of its own.\<close>

definition green_entry_a :: pyval where
  "green_entry_a =
     PDict [(''brick_type'', PStr ''3001''), (''brick_transform'', at_position 0 0 0),
            (''color'', PList green)]"

text \<open>A composite (no \<^verbatim>\<open>brick_type\<close>) that is red and holds the green leaf and \<open>entry_b\<close>.\<close>

definition red_composite :: pyval where
  "red_composite =
     PDict [(''brick_transform'', at_position 10 0 0), (''color'', PList red),
            (''bricks'', PList [green_entry_a, entry_b])]"

text \<open>The same composite without a colour of its own.\<close>

definition plain_composite :: pyval where
  "plain_composite =
     PDict [(''brick_transform'', at_position 10 0 0),
            (''bricks'', PList [green_entry_a, entry_b])]"

definition step_of :: "pyval list \<Rightarrow> pyval" where
  "step_of entries = PDict [(''bricks'', PList entries)]"

definition data_of :: "(string \<times> pyval) list \<Rightarrow> pyval" where
  "data_of operations = PDict [(''operations'', PDict operations)]"

text \<open>Two steps whose keys are 0 and 2: the indices have a gap.\<close>

definition gap_data :: pyval where
  "gap_data = data_of [(''0'', step_of [entry_a]), (''2'', step_of [entry_a, entry_b])]"

text \<open>Three steps with the keys in the order 2, 0, 1.\<close>

definition shuffled_data :: pyval where
  "shuffled_data =
     data_of [(''2'', step_of [entry_a, entry_b]), (''0'', step_of []), (''1'', step_of [entry_a])]"

text \<open>A step whose key is not a number.\<close>

definition named_data :: pyval where
  "named_data = data_of [(''first'', step_of [entry_a])]"

definition sample_bricks :: "brick list" where
  "sample_bricks = [brick_a, brick_b]"




text \<open>
  A directory maker that always succeeds, and an exporter that raises when it is given,
  or reads off the path, a format other than \<^verbatim>\<open>obj\<close>, \<^verbatim>\<open>ply\<close>, \<^verbatim>\<open>stl\<close> and \<^verbatim>\<open>glb\<close>.
\<close>

definition sample_makedirs :: makedirs where
  "sample_makedirs directory = None"

definition sample_mesh_export :: mesh_export where
  "sample_mesh_export mesh path file_type =
     (let t = (case file_type of
                 Some t \<Rightarrow> t
               | None \<Rightarrow> lower (drop 1 (snd (splitext path))))
      in if t \<in> set [''obj'', ''ply'', ''stl'', ''glb''] then None else Some ValueError)"

text \<open>One step with the red composite and the composite without a colour.\<close>

definition painted_data :: pyval where
  "painted_data = data_of [(''0'', step_of [red_composite, plain_composite])]"

text \<open>A renderer whose image records what it was asked to render.\<close>

definition sample_visualize_bricks ::
  "brick list \<Rightarrow> bool \<Rightarrow> bool \<Rightarrow> brick list \<times> bool \<times> bool"
where
  "sample_visualize_bricks bricks highlight adjust_camera = (bricks, highlight, adjust_camera)"

section \<open>Theorems: bricks to meshes\<close>

lemma and_then_Inr_iff: "and_then x f = Inr y \<longleftrightarrow> (\<exists>v. x = Inr v \<and> f v = Inr y)"
  by (cases x) auto

lemma and_then_Inl_iff:
  "and_then x f = Inl e \<longleftrightarrow> x = Inl e \<or> (\<exists>v. x = Inr v \<and> f v = Inl e)"
  by (cases x) auto

lemma select_color_total:
  "select_color colors i =
     Inr (case colors of None \<Rightarrow> None | Some cs \<Rightarrow> if i < length cs then cs ! i else None)"
  by (auto simp: select_color_def py_index_def split: option.splits)

lemma mesh_loop_Inr:
  "mesh_loop b2m colors i bricks acc = Inr ms \<Longrightarrow>
     \<exists>ms'. ms = acc @ ms' \<and> length ms' = length bricks \<and>
       (\<forall>k<length bricks. \<exists>c. select_color colors (i + k) = Inr c \<and> b2m (bricks ! k) c = Inr (ms' ! k))"
proof (induction bricks arbitrary: i acc)
  case Nil
  then show ?case by simp
next
  case (Cons b rest)
  from Cons.prems obtain c m where
    c: "select_color colors i = Inr c" and m: "b2m b c = Inr m" and
    r: "mesh_loop b2m colors (i + 1) rest (acc @ [m]) = Inr ms"
    by (auto simp: and_then_Inr_iff export_brick_to_mesh_def)
  from Cons.IH [OF r] obtain ms' where
    ms': "ms = (acc @ [m]) @ ms'" "length ms' = length rest"
    "\<forall>k<length rest. \<exists>c. select_color colors (i + 1 + k) = Inr c \<and> b2m (rest ! k) c = Inr (ms' ! k)"
    by blast
  have "\<forall>k<length (b # rest). \<exists>c. select_color colors (i + k) = Inr c \<and> b2m ((b # rest) ! k) c = Inr ((m # ms') ! k)"
  proof (intro allI impI)
    fix k assume k: "k < length (b # rest)"
    show "\<exists>c. select_color colors (i + k) = Inr c \<and> b2m ((b # rest) ! k) c = Inr ((m # ms') ! k)"
    proof (cases k)
      case 0
      with c m show ?thesis by simp
    next
      case (Suc j)
      with k ms'(3) show ?thesis by simp
    qed
  qed
  with ms' show ?case by (intro exI [of _ "m # ms'"]) simp
qed

lemma mesh_loop_Inl:
  "mesh_loop b2m colors i bricks acc = Inl e \<Longrightarrow>
     \<exists>k<length bricks. \<exists>c. select_color colors (i + k) = Inr c \<and> b2m (bricks ! k) c = Inl e"
proof (induction bricks arbitrary: i acc)
  case Nil
  then show ?case by simp
next
  case (Cons b rest)
  obtain c where c: "select_color colors i = Inr c"
    by (simp add: select_color_total)
  show ?case
  proof (cases "b2m b c")
    case (Inl e')
    with Cons.prems c have "e' = e" by (simp add: export_brick_to_mesh_def)
    with Inl c show ?thesis by (intro exI [of _ 0]) simp
  next
    case (Inr m)
    with Cons.prems c have "mesh_loop b2m colors (i + 1) rest (acc @ [m]) = Inl e"
      by (simp add: export_brick_to_mesh_def)
    from Cons.IH [OF this] obtain k c' where
      "k < length rest" "select_color colors (i + 1 + k) = Inr c'" "b2m (rest ! k) c' = Inl e"
      by blast
    then show ?thesis by (intro exI [of _ "Suc k"]) simp
  qed
qed

lemma mesh_loop_success:
  "length ms = length bricks \<Longrightarrow>
   (\<forall>k<length bricks. \<exists>c. select_color colors (i + k) = Inr c \<and> b2m (bricks ! k) c = Inr (ms ! k)) \<Longrightarrow>
   mesh_loop b2m colors i bricks acc = Inr (acc @ ms)"
proof (induction bricks arbitrary: i acc ms)
  case Nil
  then show ?case by simp
next
  case (Cons b rest)
  then obtain m ms' where ms: "ms = m # ms'" by (cases ms) auto
  from Cons.prems(2) [rule_format, of 0] ms obtain c where
    c: "select_color colors i = Inr c" "b2m b c = Inr m" by auto
  have "\<forall>k<length rest. \<exists>c. select_color colors (i + 1 + k) = Inr c \<and> b2m (rest ! k) c = Inr (ms' ! k)"
  proof (intro allI impI)
    fix k assume "k < length rest"
    with Cons.prems(2) [rule_format, of "Suc k"] ms
    show "\<exists>c. select_color colors (i + 1 + k) = Inr c \<and> b2m (rest ! k) c = Inr (ms' ! k)" by simp
  qed
  with Cons.IH [of ms' "i + 1" "acc @ [m]"] Cons.prems(1) ms
  have "mesh_loop b2m colors (i + 1) rest (acc @ [m]) = Inr ((acc @ [m]) @ ms')" by simp
  with c ms show ?case by (simp add: export_brick_to_mesh_def)
qed

lemma foldl_accumulate_vertices:
  "vertices (foldl accumulate acc ms) = vertices acc @ concat (map vertices ms)"
  by (induction ms arbitrary: acc) (simp_all add: accumulate_def)

lemma foldl_accumulate_faces_length:
  "length (faces (foldl accumulate acc ms)) = length (faces acc) + sum_list (map (\<lambda>m. length (faces m)) ms)"
  by (induction ms arbitrary: acc) (simp_all add: accumulate_def reindex_def)

lemma accumulate_in_bounds:
  "faces_in_bounds acc \<Longrightarrow> faces_in_bounds m \<Longrightarrow> faces_in_bounds (accumulate acc m)"
  by (auto simp: faces_in_bounds_def accumulate_def reindex_def list_all_iff)

lemma foldl_accumulate_in_bounds:
  "faces_in_bounds acc \<Longrightarrow> list_all faces_in_bounds ms \<Longrightarrow> faces_in_bounds (foldl accumulate acc ms)"
  by (induction ms arbitrary: acc) (simp_all add: accumulate_in_bounds)


text \<open>
  Claim C5. For every list of \<open>M\<close> bricks, \<^verbatim>\<open>export_bricks_to_mesh\<close> with \<^verbatim>\<open>merge = False\<close>
  returns a list of exactly \<open>M\<close> meshes, one per input brick and in the order of the
  input: the \<open>k\<close>-th mesh is what the geometry source returns for the \<open>k\<close>-th brick and
  the colour selected for index \<open>k\<close>. The hypothesis says that the geometry source
  returns a mesh for each of these calls; when one of them raises, so does the function
  (\<open>mesh_loop_Inl\<close>).
\<close>

theorem separate_export_one_mesh_per_brick:
  assumes "\<forall>k<length bricks. \<exists>c m. select_color colors k = Inr c \<and> brick2mesh (bricks ! k) c = Inr m"
  shows "\<exists>ms. export_bricks_to_mesh brick2mesh bricks colors False = Inr (Separate ms) \<and>
           length ms = length bricks \<and>
           (\<forall>k<length bricks. \<exists>c. select_color colors k = Inr c \<and> brick2mesh (bricks ! k) c = Inr (ms ! k))"
proof (cases "mesh_loop brick2mesh colors 0 bricks []")
  case (Inl e)
  from mesh_loop_Inl [OF Inl] obtain k c where
    "k < length bricks" "select_color colors k = Inr c" "brick2mesh (bricks ! k) c = Inl e"
    by auto
  with assms show ?thesis by fastforce
next
  case (Inr ms)
  from mesh_loop_Inr [OF Inr] have
    "length ms = length bricks"
    "\<forall>k<length bricks. \<exists>c. select_color colors k = Inr c \<and> brick2mesh (bricks ! k) c = Inr (ms ! k)"
    by auto
  with Inr show ?thesis by (simp add: export_bricks_to_mesh_def)
qed

theorem separate_export_one_mesh_per_brick_witness:
  "export_bricks_to_mesh sample_brick2mesh sample_bricks None False = Inr (Separate [triangle, square])"
proof -
  have hyp: "\<forall>k<length sample_bricks. \<exists>c m.
      select_color None k = Inr c \<and> sample_brick2mesh (sample_bricks ! k) c = Inr m"
    by (auto simp: sample_bricks_def brick_a_def brick_b_def sample_brick2mesh_def select_color_def less_Suc_eq)
  from separate_export_one_mesh_per_brick [OF hyp] obtain ms where
    ms: "export_bricks_to_mesh sample_brick2mesh sample_bricks None False = Inr (Separate ms)"
      "length ms = length sample_bricks"
      "\<forall>k<length sample_bricks. \<exists>c. select_color None k = Inr c \<and>
         sample_brick2mesh (sample_bricks ! k) c = Inr (ms ! k)"
    by blast
  from ms(3) [rule_format, of 0] ms(3) [rule_format, of 1]
  have "ms ! 0 = triangle" "ms ! 1 = square"
    by (auto simp: sample_bricks_def brick_a_def brick_b_def sample_brick2mesh_def select_color_def)
  with ms(2) have "ms = [triangle, square]"
    by (cases ms; cases "tl ms") (auto simp: sample_bricks_def)
  with ms(1) show ?thesis by simp
qed

text \<open>
  Claim C10. When the colour list is shorter than the brick list, every brick whose index
  lies beyond the end of the colour list is converted with colour \<^verbatim>\<open>None\<close>, and no
  out-of-range error is raised: the colour selected at such an index is \<^verbatim>\<open>None\<close>, every
  exception of the function is one that the geometry source raised for one of the
  bricks, and in the returned list the mesh at such an index is the one the geometry
  source returns for that brick and the colour \<^verbatim>\<open>None\<close>.
\<close>

theorem short_colors_give_default_color:
  "(\<forall>i. length cs \<le> i \<longrightarrow> select_color (Some cs) i = Inr None) \<and>
   (\<forall>e. export_bricks_to_mesh brick2mesh bricks (Some cs) merge = Inl e \<longrightarrow>
      (\<exists>k<length bricks. \<exists>c. brick2mesh (bricks ! k) c = Inl e)) \<and>
   (\<forall>ms i. export_bricks_to_mesh brick2mesh bricks (Some cs) False = Inr (Separate ms) \<longrightarrow>
      length cs \<le> i \<longrightarrow> i < length bricks \<longrightarrow> brick2mesh (bricks ! i) None = Inr (ms ! i))"
proof (intro conjI allI impI)
  fix i assume "length cs \<le> i"
  then show "select_color (Some cs) i = Inr None"
    by (simp add: select_color_def)
next
  fix e assume "export_bricks_to_mesh brick2mesh bricks (Some cs) merge = Inl e"
  then have "mesh_loop brick2mesh (Some cs) 0 bricks [] = Inl e"
    by (auto simp: export_bricks_to_mesh_def and_then_Inl_iff split: if_splits)
  from mesh_loop_Inl [OF this] show "\<exists>k<length bricks. \<exists>c. brick2mesh (bricks ! k) c = Inl e"
    by auto
next
  fix ms i
  assume r: "export_bricks_to_mesh brick2mesh bricks (Some cs) False = Inr (Separate ms)"
    and i: "length cs \<le> i" "i < length bricks"
  from r have "mesh_loop brick2mesh (Some cs) 0 bricks [] = Inr ms"
    by (auto simp: export_bricks_to_mesh_def and_then_Inr_iff)
  from mesh_loop_Inr [OF this] i(2) obtain c where
    "select_color (Some cs) i = Inr c" "brick2mesh (bricks ! i) c = Inr (ms ! i)"
    by auto
  moreover from i(1) have "select_color (Some cs) i = Inr None"
    by (simp add: select_color_def)
  ultimately show "brick2mesh (bricks ! i) None = Inr (ms ! i)" by simp
qed

theorem short_colors_give_default_color_witness:
  "export_bricks_to_mesh sample_brick2mesh sample_bricks (Some [Some red]) False
     = Inr (Separate [triangle, square]) \<and>
   length [Some red] \<le> (1::nat) \<and> 1 < length sample_bricks \<and>
   select_color (Some [Some red]) 1 = Inr None \<and>
   sample_brick2mesh (sample_bricks ! 1) None = Inr ([triangle, square] ! 1)"
proof -
  have r: "export_bricks_to_mesh sample_brick2mesh sample_bricks (Some [Some red]) False
      = Inr (Separate [triangle, square])"
    by (simp add: export_bricks_to_mesh_def sample_bricks_def brick_a_def brick_b_def sample_brick2mesh_def
        select_color_def py_index_def export_brick_to_mesh_def)
  have i: "length [Some red] \<le> (1::nat)" "1 < length sample_bricks"
    by (simp_all add: sample_bricks_def)
  from short_colors_give_default_color [of "[Some red]" sample_brick2mesh sample_bricks False]
  have "select_color (Some [Some red]) 1 = Inr None"
    and "sample_brick2mesh (sample_bricks ! 1) None = Inr ([triangle, square] ! 1)"
    using r i by blast+
  with r i show ?thesis by blast
qed

text \<open>
  Claim C3. With \<^verbatim>\<open>merge = True\<close> the function returns a single mesh whose vertex count
  is the sum of the per-brick vertex counts and whose face count is the sum of the
  per-brick face counts; every face index is within the bounds of the merged vertex
  array, and the vertex blocks of the bricks appear in the order of the input. Here \<open>ms\<close>
  is the list of the per-brick meshes, whose face indices are within their own bounds.
  The statement holds for every brick list, the non-empty ones among them.
\<close>

theorem merged_export_counts:
  assumes "length ms = length bricks"
    and "\<forall>k<length bricks. \<exists>c. select_color colors k = Inr c \<and> brick2mesh (bricks ! k) c = Inr (ms ! k)"
    and "list_all faces_in_bounds ms"
  shows "\<exists>m. export_bricks_to_mesh brick2mesh bricks colors True = Inr (Merged m) \<and>
           length (vertices m) = sum_list (map (\<lambda>b. length (vertices b)) ms) \<and>
           length (faces m) = sum_list (map (\<lambda>b. length (faces b)) ms) \<and>
           faces_in_bounds m \<and>
           vertices m = concat (map vertices ms)"
proof -
  from mesh_loop_success [of ms bricks colors 0 brick2mesh "[]"] assms(1,2)
  have "mesh_loop brick2mesh colors 0 bricks [] = Inr ms" by simp
  then have r: "export_bricks_to_mesh brick2mesh bricks colors True = Inr (Merged (concatenate ms))"
    by (simp add: export_bricks_to_mesh_def)
  have v: "vertices (concatenate ms) = concat (map vertices ms)"
    by (simp add: concatenate_def foldl_accumulate_vertices empty_mesh_def)
  have f: "length (faces (concatenate ms)) = sum_list (map (\<lambda>b. length (faces b)) ms)"
    by (simp add: concatenate_def foldl_accumulate_faces_length empty_mesh_def)
  have "faces_in_bounds empty_mesh"
    by (simp add: faces_in_bounds_def empty_mesh_def)
  with assms(3) have b: "faces_in_bounds (concatenate ms)"
    by (simp add: concatenate_def foldl_accumulate_in_bounds)
  from v have "length (vertices (concatenate ms)) = sum_list (map (\<lambda>b. length (vertices b)) ms)"
    by (simp add: length_concat comp_def)
  with r v f b show ?thesis by blast
qed

text \<open>
  Claim C7. For the empty list of bricks, \<^verbatim>\<open>export_bricks_to_mesh\<close> returns an empty
  merged mesh (no vertices, no faces) when \<^verbatim>\<open>merge = True\<close> and the empty list when
  \<^verbatim>\<open>merge = False\<close>; in neither case does it raise.
\<close>

theorem empty_export:
  "export_bricks_to_mesh brick2mesh [] colors True = Inr (Merged empty_mesh) \<and>
   vertices empty_mesh = [] \<and> faces empty_mesh = [] \<and>
   export_bricks_to_mesh brick2mesh [] colors False = Inr (Separate [])"
  by (simp add: export_bricks_to_mesh_def concatenate_def empty_mesh_def)

theorem empty_export_witness:
  "export_bricks_to_mesh sample_brick2mesh [] None True = Inr (Merged empty_mesh) \<and>
   export_bricks_to_mesh sample_brick2mesh [] (Some [Some red]) False = Inr (Separate [])"
  using empty_export [of sample_brick2mesh None] empty_export [of sample_brick2mesh "Some [Some red]"]
  by simp

theorem merged_export_counts_witness:
  "\<exists>m. export_bricks_to_mesh sample_brick2mesh sample_bricks None True = Inr (Merged m) \<and>
       length (vertices m) = 3 + 4 \<and> length (faces m) = 1 + 2 \<and> faces_in_bounds m \<and>
       vertices m = vertices triangle @ vertices square"
proof -
  have len: "length [triangle, square] = length sample_bricks"
    by (simp add: sample_bricks_def)
  have each: "\<forall>k<length sample_bricks. \<exists>c. select_color None k = Inr c \<and>
      sample_brick2mesh (sample_bricks ! k) c = Inr ([triangle, square] ! k)"
    by (auto simp: sample_bricks_def brick_a_def brick_b_def sample_brick2mesh_def
        select_color_def less_Suc_eq)
  have bounds: "list_all faces_in_bounds [triangle, square]"
    by (simp add: faces_in_bounds_def triangle_def square_def)
  from merged_export_counts [OF len each bounds] obtain m where
    m: "export_bricks_to_mesh sample_brick2mesh sample_bricks None True = Inr (Merged m)"
      "length (vertices m) = sum_list (map (\<lambda>b. length (vertices b)) [triangle, square])"
      "length (faces m) = sum_list (map (\<lambda>b. length (faces b)) [triangle, square])"
      "faces_in_bounds m"
      "vertices m = concat (map vertices [triangle, square])"
    by blast
  from m(2) have v: "length (vertices m) = 3 + 4"
    by (simp add: triangle_def square_def)
  from m(3) have f: "length (faces m) = 1 + 2"
    by (simp add: triangle_def square_def)
  from m(5) have b: "vertices m = vertices triangle @ vertices square"
    by simp
  from m(1) v f m(4) b show ?thesis by blast
qed

section \<open>Theorems: collecting the bricks of the steps\<close>

lemma expand_loop_Inr:
  "expand_loop wc entry subs (bs, cs) = Inr (bs', cs') \<Longrightarrow>
     bs' = bs @ subs \<and>
     (\<exists>col. cs' = cs @ replicate (length subs) col \<and> (subs \<noteq> [] \<longrightarrow> entry_color wc entry = Inr col))"
proof (induction subs arbitrary: bs cs)
  case Nil
  then show ?case by simp
next
  case (Cons sb rest)
  from Cons.prems obtain col where
    col: "entry_color wc entry = Inr col" and
    r: "expand_loop wc entry rest (bs @ [sb], cs @ [col]) = Inr (bs', cs')"
    by (auto simp: and_then_Inr_iff)
  from Cons.IH [OF r] obtain col' where
    "bs' = (bs @ [sb]) @ rest" "cs' = (cs @ [col]) @ replicate (length rest) col'"
    "rest \<noteq> [] \<longrightarrow> entry_color wc entry = Inr col'"
    by blast
  with col have "bs' = bs @ sb # rest" "cs' = cs @ replicate (length (sb # rest)) col"
    by (cases rest; simp)+
  with col show ?case by blast
qed

lemma process_entry_Inr:
  assumes "process_entry d2c wc b_step j (bs, cs) = Inr (bs', cs')"
  shows "\<exists>entry part col. getitem_index b_step j = Inr entry \<and>
           bs' = bs @ part \<and> cs' = cs @ replicate (length part) col \<and>
           contributes d2c wc entry part col"
proof -
  from assms obtain entry tr rotation position has_type where
    e: "getitem_index b_step j = Inr entry" and
    tr: "getitem entry ''brick_transform'' = Inr tr" and
    ro: "getitem tr ''rotation'' = Inr rotation" and
    po: "getitem tr ''position'' = Inr position" and
    ht: "contains ''brick_type'' entry = Inr has_type" and
    rest: "(if has_type then
         and_then (getitem entry ''brick_type'') (\<lambda>brick_type.
         and_then (entry_color wc entry) (\<lambda>color.
           Inr (fst (bs, cs) @ [Brick brick_type position rotation], snd (bs, cs) @ [color])))
       else
         and_then (d2c entry) (\<lambda>cbrick_bricks.
           expand_loop wc entry cbrick_bricks (bs, cs))) = Inr (bs', cs')"
    unfolding process_entry_def and_then_Inr_iff by blast
  show ?thesis
  proof (cases has_type)
    case True
    with rest obtain t col where
      t: "getitem entry ''brick_type'' = Inr t" and col: "entry_color wc entry = Inr col" and
      eq: "bs' = bs @ [Brick t position rotation]" "cs' = cs @ [col]"
      by (auto simp: and_then_Inr_iff)
    from True ht tr ro po t have "entry_records d2c entry = Inr [Brick t position rotation]"
      by (simp add: entry_records_def primitive_brick_def)
    with col have "contributes d2c wc entry [Brick t position rotation] col"
      by (simp add: contributes_def)
    with e eq show ?thesis by (intro exI [of _ entry] exI [of _ "[Brick t position rotation]"] exI [of _ col]) simp
  next
    case False
    with rest obtain subs where
      subs: "d2c entry = Inr subs" and ex: "expand_loop wc entry subs (bs, cs) = Inr (bs', cs')"
      by (auto simp: and_then_Inr_iff)
    from expand_loop_Inr [OF ex] obtain col where
      eq: "bs' = bs @ subs" "cs' = cs @ replicate (length subs) col" and
      col: "subs \<noteq> [] \<longrightarrow> entry_color wc entry = Inr col"
      by blast
    from False ht subs have "entry_records d2c entry = Inr subs"
      by (simp add: entry_records_def)
    with col have "contributes d2c wc entry subs col"
      by (simp add: contributes_def)
    with e eq show ?thesis by blast
  qed
qed

lemma paint_Cons: "paint (part # parts) (col # cols) = replicate (length part) col @ paint parts cols"
  by (simp add: paint_def)

lemma entries_loop_Inr:
  "entries_loop d2c wc b_step js (bs, cs) = Inr (bs', cs') \<Longrightarrow>
     \<exists>parts cols. length parts = length js \<and> length cols = length js \<and>
       bs' = bs @ concat parts \<and> cs' = cs @ paint parts cols \<and>
       (\<forall>i<length js. \<exists>entry. getitem_index b_step (js ! i) = Inr entry \<and>
          contributes d2c wc entry (parts ! i) (cols ! i))"
proof (induction js arbitrary: bs cs)
  case Nil
  then show ?case by (simp add: paint_def)
next
  case (Cons j js)
  from Cons.prems obtain acc1 where
    p: "process_entry d2c wc b_step j (bs, cs) = Inr acc1" and
    l: "entries_loop d2c wc b_step js acc1 = Inr (bs', cs')"
    by (auto simp: and_then_Inr_iff)
  obtain bs1 cs1 where acc1: "acc1 = (bs1, cs1)" by (cases acc1)
  from process_entry_Inr [OF p [unfolded acc1]] obtain entry part col where
    h: "getitem_index b_step j = Inr entry" "bs1 = bs @ part"
      "cs1 = cs @ replicate (length part) col" "contributes d2c wc entry part col"
    by blast
  from Cons.IH [OF l [unfolded acc1]] obtain parts cols where
    t: "length parts = length js" "length cols = length js"
      "bs' = bs1 @ concat parts" "cs' = cs1 @ paint parts cols"
      "\<forall>i<length js. \<exists>entry. getitem_index b_step (js ! i) = Inr entry \<and>
          contributes d2c wc entry (parts ! i) (cols ! i)"
    by blast
  have "\<forall>i<length (j # js). \<exists>entry. getitem_index b_step ((j # js) ! i) = Inr entry \<and>
          contributes d2c wc entry ((part # parts) ! i) ((col # cols) ! i)"
  proof (intro allI impI)
    fix i assume i: "i < length (j # js)"
    show "\<exists>entry. getitem_index b_step ((j # js) ! i) = Inr entry \<and>
          contributes d2c wc entry ((part # parts) ! i) ((col # cols) ! i)"
    proof (cases i)
      case 0
      with h show ?thesis by simp
    next
      case (Suc k)
      with i t(5) show ?thesis by simp
    qed
  qed
  with h t show ?case
    by (intro exI [of _ "part # parts"] exI [of _ "col # cols"]) (simp add: paint_Cons)
qed

lemma process_step_Inr:
  assumes "process_step d2c wc (PList entries) (bs, cs) = Inr (bs', cs')"
  shows "\<exists>parts cols. length parts = length entries \<and> length cols = length entries \<and>
       bs' = bs @ concat parts \<and> cs' = cs @ paint parts cols \<and>
       (\<forall>j<length entries. contributes d2c wc (entries ! j) (parts ! j) (cols ! j))"
proof -
  from assms have "entries_loop d2c wc (PList entries) [0..<length entries] (bs, cs) = Inr (bs', cs')"
    by (simp add: process_step_def)
  from entries_loop_Inr [OF this] obtain parts cols where
    t: "length parts = length entries" "length cols = length entries"
      "bs' = bs @ concat parts" "cs' = cs @ paint parts cols"
      "\<forall>i<length [0..<length entries]. \<exists>entry.
          getitem_index (PList entries) ([0..<length entries] ! i) = Inr entry \<and>
          contributes d2c wc entry (parts ! i) (cols ! i)"
    by auto
  have "\<forall>j<length entries. contributes d2c wc (entries ! j) (parts ! j) (cols ! j)"
  proof (intro allI impI)
    fix j assume j: "j < length entries"
    with t(5) [rule_format, of j] show "contributes d2c wc (entries ! j) (parts ! j) (cols ! j)"
      by simp
  qed
  with t show ?thesis by blast
qed


lemma entry_color_Inr:
  assumes "entry_color wc entry = Inr col"
  shows "if wc then (case getitem entry ''color'' of
                       Inl e \<Rightarrow> col = None
                     | Inr c \<Rightarrow> \<exists>t. py_tuple c = Inr t \<and> col = Some t)
         else col = None"
proof (cases wc)
  case False
  with assms show ?thesis by (simp add: entry_color_def)
next
  case True
  with assms obtain has where
    has: "contains ''color'' entry = Inr has" and
    r: "(if has then and_then (getitem entry ''color'') (\<lambda>c. and_then (py_tuple c) (\<lambda>t. Inr (Some t)))
         else Inr None) = Inr col"
    by (auto simp: entry_color_def and_then_Inr_iff)
  show ?thesis
  proof (cases has)
    case True
    with r obtain c t where "getitem entry ''color'' = Inr c" "py_tuple c = Inr t" "col = Some t"
      by (auto simp: and_then_Inr_iff)
    with \<open>wc\<close> show ?thesis by simp
  next
    case False
    with r have col: "col = None" by simp
    from False has have "\<exists>e. getitem entry ''color'' = Inl e"
      by (cases entry) (auto simp: map_of_eq_None_iff [THEN iffD2] split: option.splits)
    with col \<open>wc\<close> show ?thesis by auto
  qed
qed









text \<open>
  Claim C2, as amended. Every record that a step entry contributes, the record of a
  primitive entry as well as each leaf of a composite entry, is given the colour of that
  step entry: \<^verbatim>\<open>tuple(entry['color'])\<close> when colours are requested and the entry has the
  key \<^verbatim>\<open>color\<close>, and \<^verbatim>\<open>None\<close> otherwise. Colours written on the sub-bricks of a composite
  or on definitions nested in it are not read.
\<close>

theorem colors_come_from_the_step_entry:
  assumes "process_step dict_to_cbrick with_colors (PList entries) (bricks, colors) = Inr (bricks', colors')"
  shows "\<exists>parts cols. length parts = length entries \<and> length cols = length entries \<and>
           bricks' = bricks @ concat parts \<and>
           colors' = colors @ concat (map2 (\<lambda>part col. replicate (length part) col) parts cols) \<and>
           (\<forall>j<length entries.
              entry_records dict_to_cbrick (entries ! j) = Inr (parts ! j) \<and>
              (parts ! j \<noteq> [] \<longrightarrow>
                 (if with_colors then
                    (case getitem (entries ! j) ''color'' of
                       Inl e \<Rightarrow> cols ! j = None
                     | Inr c \<Rightarrow> \<exists>t. py_tuple c = Inr t \<and> cols ! j = Some t)
                  else cols ! j = None)))"
proof -
  from process_step_Inr [OF assms] obtain parts cols where
    t: "length parts = length entries" "length cols = length entries"
      "bricks' = bricks @ concat parts" "colors' = colors @ paint parts cols"
      "\<forall>j<length entries. contributes dict_to_cbrick with_colors (entries ! j) (parts ! j) (cols ! j)"
    by blast
  have "\<forall>j<length entries.
              entry_records dict_to_cbrick (entries ! j) = Inr (parts ! j) \<and>
              (parts ! j \<noteq> [] \<longrightarrow>
                 (if with_colors then
                    (case getitem (entries ! j) ''color'' of
                       Inl e \<Rightarrow> cols ! j = None
                     | Inr c \<Rightarrow> \<exists>t. py_tuple c = Inr t \<and> cols ! j = Some t)
                  else cols ! j = None))"
  proof (intro allI impI conjI)
    fix j assume j: "j < length entries"
    with t(5) show "entry_records dict_to_cbrick (entries ! j) = Inr (parts ! j)"
      by (simp add: contributes_def)
    assume "parts ! j \<noteq> []"
    with j t(5) have "entry_color with_colors (entries ! j) = Inr (cols ! j)"
      by (simp add: contributes_def)
    from entry_color_Inr [OF this]
    show "if with_colors then
            (case getitem (entries ! j) ''color'' of
               Inl e \<Rightarrow> cols ! j = None
             | Inr c \<Rightarrow> \<exists>t. py_tuple c = Inr t \<and> cols ! j = Some t)
          else cols ! j = None" .
  qed
  with t(1-4) show ?thesis unfolding paint_def by blast
qed

lemma and_then_cong_Inr: "(\<And>v. x = Inr v \<Longrightarrow> f v = g v) \<Longrightarrow> and_then x f = and_then x g"
  by (cases x) auto

lemma skip_step_not_final: "skip_step data False k = Inr False"
  by (simp add: skip_step_def)

lemma operations_loop_keys_ignored:
  "map snd its = map snd its' \<Longrightarrow>
     operations_loop d2c data False wc its acc = operations_loop d2c data' False wc its' acc"
proof (induction its arbitrary: its' acc)
  case Nil
  then show ?case by simp
next
  case (Cons kv rest)
  then obtain kv' rest' where its': "its' = kv' # rest'" "snd kv = snd kv'" "map snd rest = map snd rest'"
    by (cases its') auto
  obtain k op where kv: "kv = (k, op)" by (cases kv)
  obtain k' where kv': "kv' = (k', op)" using its'(2) kv by (cases kv') auto
  have "\<And>acc. operations_loop d2c data False wc rest acc = operations_loop d2c data' False wc rest' acc"
    using Cons.IH [OF its'(3)] .
  then have "operations_loop d2c data False wc rest = operations_loop d2c data' False wc rest'"
    by (rule ext)
  then show ?case
    by (simp add: its' kv kv' skip_step_not_final)
qed

lemma operations_loop_bad_key:
  "(k, op) \<in> set its \<Longrightarrow> py_int k = None \<Longrightarrow>
     \<exists>e. operations_loop d2c data True wc its acc = Inl e"
proof (induction its arbitrary: acc)
  case Nil
  then show ?case by simp
next
  case (Cons kv rest)
  obtain k' op' where kv: "kv = (k', op')" by (cases kv)
  show ?case
  proof (cases "py_int k'")
    case None
    then show ?thesis by (simp add: kv skip_step_def)
  next
    case (Some i)
    with Cons.prems kv have "(k, op) \<in> set rest" by auto
    from Cons.IH [OF this Cons.prems(2)]
    have ih: "\<And>acc. \<exists>e. operations_loop d2c data True wc rest acc = Inl e" by blast
    show ?thesis
    proof (cases "skip_step data True k'")
      case (Inl e)
      then show ?thesis by (simp add: kv)
    next
      case (Inr skip)
      show ?thesis
      proof (cases skip)
        case True
        with Inr ih show ?thesis by (simp add: kv)
      next
        case False
        show ?thesis
        proof (cases "and_then (getitem op' ''bricks'') (\<lambda>b_step. process_step d2c wc b_step acc)")
          case (Inl e)
          with Inr False show ?thesis
            by (cases "getitem op' ''bricks''") (auto simp: kv)
        next
          case (Inr acc')
          with \<open>skip_step data True k' = Inr skip\<close> False ih [of acc'] show ?thesis
            by (cases "getitem op' ''bricks''") (auto simp: kv)
        qed
      qed
    qed
  qed
qed

lemma operations_loop_first_bad_key:
  assumes "getitem data ''operations'' = Inr operations" "py_len operations = Inr n"
    and "py_int k = None"
    and "\<forall>kv\<in>set pre. \<exists>i. py_int (fst kv) = Some i \<and> i \<noteq> int n - 1"
  shows "operations_loop d2c data True wc (pre @ (k, op) # post) acc = Inl ValueError"
  using assms(4)
proof (induction pre)
  case Nil
  from assms(3) show ?case by (simp add: skip_step_def)
next
  case (Cons kv pre)
  obtain k' op' where kv: "kv = (k', op')" by (cases kv)
  from Cons.prems kv obtain i where "py_int k' = Some i" "i \<noteq> int n - 1" by auto
  with assms(1,2) have "skip_step data True k' = Inr True"
    by (simp add: skip_step_def)
  with Cons show ?case by (simp add: kv)
qed

lemma only_final_filter:
  assumes "getitem data ''operations'' = Inr operations" "py_len operations = Inr n"
  shows "\<forall>kv\<in>set its. py_int (fst kv) \<noteq> None \<Longrightarrow>
    operations_loop d2c data True wc its acc =
    operations_loop d2c data False wc (filter (\<lambda>kv. py_int (fst kv) = Some (int n - 1)) its) acc"
proof (induction its arbitrary: acc)
  case Nil
  then show ?case by simp
next
  case (Cons kv rest)
  obtain k op where kv: "kv = (k, op)" by (cases kv)
  from Cons.prems kv obtain i where i: "py_int k = Some i" by auto
  with assms have s: "skip_step data True k = Inr (i \<noteq> int n - 1)"
    by (simp add: skip_step_def)
  from Cons have ih: "\<And>acc. operations_loop d2c data True wc rest acc =
    operations_loop d2c data False wc (filter (\<lambda>kv. py_int (fst kv) = Some (int n - 1)) rest) acc"
    by simp
  then have "operations_loop d2c data True wc rest =
    operations_loop d2c data False wc (filter (\<lambda>kv. py_int (fst kv) = Some (int n - 1)) rest)"
    by (rule ext)
  with s i show ?case
    by (simp add: kv skip_step_not_final ih)
qed


theorem colors_come_from_the_step_entry_witness:
  "\<exists>parts cols. process_step sample_dict_to_cbrick True (PList [red_composite, plain_composite]) ([], [])
       = Inr (concat parts, concat (map2 (\<lambda>part col. replicate (length part) col) parts cols)) \<and>
     parts = [[brick_a, brick_b], [brick_a, brick_b]] \<and> cols = [Some red, None]"
proof -
  let ?entries = "[red_composite, plain_composite]"
  have run: "process_step sample_dict_to_cbrick True (PList ?entries) ([], [])
      = Inr ([brick_a, brick_b, brick_a, brick_b], [Some red, Some red, None, None])"
    by code_simp
  from colors_come_from_the_step_entry [OF run] obtain parts cols where
    p: "length parts = length ?entries" "length cols = length ?entries"
      "[brick_a, brick_b, brick_a, brick_b] = [] @ concat parts"
      "[Some red, Some red, None, None] = [] @ concat (map2 (\<lambda>part col. replicate (length part) col) parts cols)"
      "\<forall>j<length ?entries.
          entry_records sample_dict_to_cbrick (?entries ! j) = Inr (parts ! j) \<and>
          (parts ! j \<noteq> [] \<longrightarrow>
             (if True then
                (case getitem (?entries ! j) ''color'' of
                   Inl e \<Rightarrow> cols ! j = None
                 | Inr c \<Rightarrow> \<exists>t. py_tuple c = Inr t \<and> cols ! j = Some t)
              else cols ! j = None))"
    by (elim exE conjE)
  have r: "entry_records sample_dict_to_cbrick red_composite = Inr [brick_a, brick_b]"
    "getitem red_composite ''color'' = Inr (PList red)"
    by code_simp+
  have q: "entry_records sample_dict_to_cbrick plain_composite = Inr [brick_a, brick_b]"
    "getitem plain_composite ''color'' = Inl (KeyError (PStr ''color''))"
    by code_simp+
  from p(5) [rule_format, of 0] have
    e0: "entry_records sample_dict_to_cbrick red_composite = Inr (parts ! 0)" and
    c0: "parts ! 0 \<noteq> [] \<longrightarrow> (case getitem red_composite ''color'' of
                   Inl e \<Rightarrow> cols ! 0 = None
                 | Inr c \<Rightarrow> \<exists>t. py_tuple c = Inr t \<and> cols ! 0 = Some t)"
    by simp_all
  from p(5) [rule_format, of 1] have
    e1: "entry_records sample_dict_to_cbrick plain_composite = Inr (parts ! 1)" and
    c1: "parts ! 1 \<noteq> [] \<longrightarrow> (case getitem plain_composite ''color'' of
                   Inl e \<Rightarrow> cols ! 1 = None
                 | Inr c \<Rightarrow> \<exists>t. py_tuple c = Inr t \<and> cols ! 1 = Some t)"
    by simp_all
  from e0 r(1) have p0: "parts ! 0 = [brick_a, brick_b]" by simp
  from e1 q(1) have p1: "parts ! 1 = [brick_a, brick_b]" by simp
  from c0 p0 r(2) have k0: "cols ! 0 = Some red" by simp
  from c1 p1 q(2) have k1: "cols ! 1 = None" by simp
  from p(1) p0 p1 have parts: "parts = [[brick_a, brick_b], [brick_a, brick_b]]"
    by (cases parts; cases "tl parts") simp_all
  from p(2) k0 k1 have cols: "cols = [Some red, None]"
    by (cases cols; cases "tl cols") simp_all
  from parts cols run show ?thesis by simp
qed

text \<open>
  Claim C2 as stated fails. The leaf \<open>green_entry_a\<close> carries the colour green. Inside the
  red composite its record is given red, and inside the composite without a colour it is
  given \<^verbatim>\<open>None\<close>: the colour of the leaf does not override the colour of the composite.
\<close>

theorem leaf_color_is_not_read:
  "collect_bricks sample_dict_to_cbrick painted_data False True
     = Inr ([brick_a, brick_b, brick_a, brick_b], [Some red, Some red, None, None]) \<and>
   sample_dict_to_cbrick red_composite = Inr [brick_a, brick_b] \<and>
   sample_dict_to_cbrick plain_composite = Inr [brick_a, brick_b] \<and>
   primitive_brick green_entry_a = Inr brick_a \<and>
   entry_color True green_entry_a = Inr (Some green) \<and>
   Some green \<noteq> Some red \<and> Some green \<noteq> (None :: color option)"
  by code_simp

text \<open>
  Claim C1 says that \<^verbatim>\<open>only_final\<close> processes exactly the step whose key is numerically
  greatest, for keys in any order and with gaps. The code compares each key with the
  number of steps minus one. For the two steps with the keys 0 and 2 no key equals 1: the
  final step, key 2, holds two bricks, and with \<^verbatim>\<open>only_final\<close> nothing is collected.
\<close>

theorem only_final_after_a_gap:
  "py_int ''0'' = Some 0 \<and> py_int ''2'' = Some 2 \<and>
   collect_bricks sample_dict_to_cbrick gap_data False True
     = Inr ([brick_a, brick_a, brick_b], [None, None, None]) \<and>
   collect_bricks sample_dict_to_cbrick gap_data True True = Inr ([], [])"
  by code_simp

lemma py_int_whitespace:
  "py_int [char_of (28 :: nat), CHR ''0''] = None \<and>
   py_int [char_of (160 :: nat), CHR ''0''] = Some 0 \<and>
   py_int [CHR ''0'', char_of (133 :: nat)] = Some 0 \<and>
   py_int '' 0_7 '' = Some 7 \<and> py_int ''0__7'' = None \<and> py_int ''- 7'' = None"
  by code_simp

text \<open>
  Claim C6, as amended. With \<^verbatim>\<open>only_final\<close> set, data with a step key that \<^verbatim>\<open>int\<close> does
  not convert makes \<^verbatim>\<open>export_from_json\<close> fail before anything is exported; the exception
  is the ValueError of \<^verbatim>\<open>int\<close> when every key before the unconvertible one converts to
  an index other than the final one, so that no step is processed before it. With
  \<^verbatim>\<open>only_final\<close> unset the keys are never converted: what is collected depends only on the
  steps and their order, not on the keys.
\<close>

theorem unconvertible_key:
  assumes "getitem data ''operations'' = Inr (PDict its)"
    and "(k, op) \<in> set its" and "py_int k = None"
  shows "(\<exists>e. export_from_json dict_to_cbrick brick2mesh makedirs mesh_export data output_path
                 True with_colors = ([], Some e)) \<and>
         (\<forall>pre post. its = pre @ (k, op) # post \<longrightarrow>
            (\<forall>kv\<in>set pre. \<exists>i. py_int (fst kv) = Some i \<and> i \<noteq> int (length its) - 1) \<longrightarrow>
            export_from_json dict_to_cbrick brick2mesh makedirs mesh_export data output_path
              True with_colors = ([], Some ValueError)) \<and>
         (\<forall>its'. map snd its' = map snd its \<longrightarrow>
            collect_bricks dict_to_cbrick (data_of its') False with_colors
              = collect_bricks dict_to_cbrick data False with_colors)"
proof (intro conjI allI impI)
  from operations_loop_bad_key [OF assms(2,3)] obtain e where
    "operations_loop dict_to_cbrick data True with_colors its ([], []) = Inl e" by blast
  with assms(1) have "collect_bricks dict_to_cbrick data True with_colors = Inl e"
    by (simp add: collect_bricks_def)
  then show "\<exists>e. export_from_json dict_to_cbrick brick2mesh makedirs mesh_export data output_path
                 True with_colors = ([], Some e)"
    by (simp add: export_from_json_def)
next
  fix pre post
  assume its: "its = pre @ (k, op) # post"
    and pre: "\<forall>kv\<in>set pre. \<exists>i. py_int (fst kv) = Some i \<and> i \<noteq> int (length its) - 1"
  have "py_len (PDict its) = Inr (length its)" by simp
  from operations_loop_first_bad_key [OF assms(1) this assms(3) pre]
  have "operations_loop dict_to_cbrick data True with_colors its ([], []) = Inl ValueError"
    by (simp add: its)
  with assms(1) have "collect_bricks dict_to_cbrick data True with_colors = Inl ValueError"
    by (simp add: collect_bricks_def)
  then show "export_from_json dict_to_cbrick brick2mesh makedirs mesh_export data output_path
              True with_colors = ([], Some ValueError)"
    by (simp add: export_from_json_def)
next
  fix its' :: "(string \<times> pyval) list"
  assume "map snd its' = map snd its"
  from operations_loop_keys_ignored [OF this]
  have "operations_loop dict_to_cbrick (data_of its') False with_colors its' ([], [])
      = operations_loop dict_to_cbrick data False with_colors its ([], [])" .
  with assms(1) show "collect_bricks dict_to_cbrick (data_of its') False with_colors
              = collect_bricks dict_to_cbrick data False with_colors"
    by (simp add: collect_bricks_def data_of_def)
qed

theorem unconvertible_key_witness:
  "py_int ''first'' = None \<and>
   export_from_json sample_dict_to_cbrick sample_brick2mesh sample_makedirs sample_mesh_export
       named_data ''out/Model.OBJ'' True True
     = ([], Some ValueError) \<and>
   collect_bricks sample_dict_to_cbrick (data_of [(''0'', step_of [entry_a])]) False True
     = collect_bricks sample_dict_to_cbrick named_data False True"
proof -
  let ?its = "[(''first'', step_of [entry_a])]"
  have d: "getitem named_data ''operations'' = Inr (PDict ?its)"
    by (simp add: named_data_def data_of_def)
  have k: "(''first'', step_of [entry_a]) \<in> set ?its" by simp
  have n: "py_int ''first'' = None" by code_simp
  from unconvertible_key [OF d k n, of sample_dict_to_cbrick sample_brick2mesh sample_makedirs
      sample_mesh_export "''out/Model.OBJ''" True]
  have "\<forall>pre post. ?its = pre @ (''first'', step_of [entry_a]) # post \<longrightarrow>
            (\<forall>kv\<in>set pre. \<exists>i. py_int (fst kv) = Some i \<and> i \<noteq> int (length ?its) - 1) \<longrightarrow>
            export_from_json sample_dict_to_cbrick sample_brick2mesh sample_makedirs
              sample_mesh_export named_data ''out/Model.OBJ'' True True = ([], Some ValueError)"
    and "\<forall>its'. map snd its' = map snd ?its \<longrightarrow>
            collect_bricks sample_dict_to_cbrick (data_of its') False True
              = collect_bricks sample_dict_to_cbrick named_data False True"
    by blast+
  from this(1) [rule_format, of "[]" "[]"] this(2) [rule_format, of "[(''0'', step_of [entry_a])]"] n
  show ?thesis by simp
qed

text \<open>
  Claim C6 as stated fails. The key \<^verbatim>\<open>first\<close> is not convertible to an integer, and
  without \<^verbatim>\<open>only_final\<close> the export runs to its end: the mesh is exported and reported, and
  no exception is left.
\<close>

theorem named_step_is_accepted:
  "py_int ''first'' = None \<and>
   export_from_json sample_dict_to_cbrick sample_brick2mesh sample_makedirs sample_mesh_export
       named_data ''out/Model.OBJ'' False True
     = ([Makedirs ''out'', Export triangle ''out/Model.OBJ'' (Some ''obj''),
         Report ''out/Model.OBJ'' ''obj'' 3 1], None)"
  by code_simp

text \<open>
  Where the keys are the indices \<open>0, \<dots>, N - 1\<close> in any order, the comparison with \<open>N - 1\<close>
  selects the steps of greatest index.
\<close>

lemma only_final_on_shuffled_keys:
  "collect_bricks sample_dict_to_cbrick shuffled_data True True
     = Inr ([brick_a, brick_b], [None, None])"
  by code_simp

lemma final_index_is_maximum:
  assumes "(\<lambda>kv. py_int (fst kv)) ` set its = (\<lambda>i. Some (int i)) ` {0..<length its}"
  shows "filter (\<lambda>kv. py_int (fst kv) = Some (int (length its) - 1)) its
       = filter (\<lambda>kv. \<forall>kv'\<in>set its. the (py_int (fst kv')) \<le> the (py_int (fst kv))) its"
proof (rule filter_cong [OF refl])
  fix kv assume kv: "kv \<in> set its"
  then have pos: "0 < length its" by (cases its) auto
  from assms have val: "\<And>x. x \<in> set its \<Longrightarrow> \<exists>i<length its. py_int (fst x) = Some (int i)"
    by (metis (mono_tags, lifting) atLeastLessThan_iff imageE image_eqI)
  from val [OF kv] obtain i where i: "i < length its" "py_int (fst kv) = Some (int i)" by blast
  from pos have "Some (int (length its - 1)) \<in> (\<lambda>i. Some (int i)) ` {0..<length its}" by simp
  with assms obtain top where top: "top \<in> set its" "py_int (fst top) = Some (int (length its - 1))"
    by (metis (mono_tags, lifting) imageE)
  show "(py_int (fst kv) = Some (int (length its) - 1))
      = (\<forall>kv'\<in>set its. the (py_int (fst kv')) \<le> the (py_int (fst kv)))"
  proof
    assume e: "py_int (fst kv) = Some (int (length its) - 1)"
    show "\<forall>kv'\<in>set its. the (py_int (fst kv')) \<le> the (py_int (fst kv))"
    proof
      fix kv' assume "kv' \<in> set its"
      from val [OF this] obtain i' where "i' < length its" "py_int (fst kv') = Some (int i')" by blast
      with e show "the (py_int (fst kv')) \<le> the (py_int (fst kv))" by simp
    qed
  next
    assume "\<forall>kv'\<in>set its. the (py_int (fst kv')) \<le> the (py_int (fst kv))"
    with top have "int (length its - 1) \<le> int i" using i by auto
    with i pos show "py_int (fst kv) = Some (int (length its) - 1)" by auto
  qed
qed

lemma only_final_is_right_on_contiguous_keys:
  assumes "getitem data ''operations'' = Inr (PDict its)"
    and "(\<lambda>kv. py_int (fst kv)) ` set its = (\<lambda>i. Some (int i)) ` {0..<length its}"
  shows "collect_bricks d2c data True wc =
     operations_loop d2c data False wc
       (filter (\<lambda>kv. \<forall>kv'\<in>set its. the (py_int (fst kv')) \<le> the (py_int (fst kv))) its) ([], [])"
proof -
  from assms(2) have "\<forall>kv\<in>set its. py_int (fst kv) \<noteq> None" by auto
  from only_final_filter [OF assms(1) _ this, of "length its"]
  have "operations_loop d2c data True wc its ([], []) =
    operations_loop d2c data False wc
      (filter (\<lambda>kv. py_int (fst kv) = Some (int (length its) - 1)) its) ([], [])"
    by simp
  with assms(1) final_index_is_maximum [OF assms(2)] show ?thesis
    by (simp add: collect_bricks_def)
qed

section \<open>Theorems: \<^verbatim>\<open>create_custom_assembly\<close>\<close>

lemma assembly_loop_eq:
  "assembly_loop zs bricks = bricks @ map (\<lambda>(brick_type, pos, rot). Brick brick_type pos rot) zs"
  by (induction zs bricks rule: assembly_loop.induct) simp_all

lemma zip_zip_replicate:
  "zip xs (zip ys (replicate (length xs) c)) = map (\<lambda>(x, y). (x, y, c)) (zip xs ys)"
proof (induction xs arbitrary: ys)
  case Nil
  then show ?case by simp
next
  case (Cons x xs)
  then show ?case by (cases ys) simp_all
qed

text \<open>
  Claim C9. When \<^verbatim>\<open>create_custom_assembly\<close> is given a rotation list whose length differs
  from the length of \<^verbatim>\<open>brick_types\<close>, every supplied rotation is discarded and each brick
  is built with the identity quaternion \<open>(1, 0, 0, 0)\<close>: the bricks handed to the renderer
  are the pairs of \<^verbatim>\<open>zip(brick_types, positions)\<close> with that rotation. The definitions have
  no error branch: this part of the function raises nothing.
\<close>

theorem mismatched_rotations_are_discarded:
  assumes "length rotations \<noteq> length brick_types"
  shows "assembly_bricks brick_types positions (Some rotations)
           = map (\<lambda>(brick_type, pos). Brick brick_type pos identity_rotation) (zip brick_types positions) \<and>
         create_custom_assembly visualize_bricks brick_types positions (Some rotations) highlight
           = visualize_bricks
               (map (\<lambda>(brick_type, pos). Brick brick_type pos identity_rotation) (zip brick_types positions))
               highlight True"
proof -
  from assms have "default_rotations brick_types (Some rotations)
      = replicate (length brick_types) identity_rotation"
    by (simp add: default_rotations_def)
  then have "assembly_bricks brick_types positions (Some rotations)
      = map (\<lambda>(brick_type, pos). Brick brick_type pos identity_rotation) (zip brick_types positions)"
    by (simp add: assembly_bricks_def assembly_loop_eq zip_zip_replicate split_def comp_def)
  then show ?thesis by (simp add: create_custom_assembly_def)
qed

theorem mismatched_rotations_are_discarded_witness:
  "length [PTuple [PInt 0, PInt 0, PInt 0, PInt 1]] \<noteq> length [PStr ''3001'', PStr ''3002''] \<and>
   assembly_bricks [PStr ''3001'', PStr ''3002'']
       [PTuple [PInt 0, PInt 0, PInt 0], PTuple [PInt 20, PInt 0, PInt 0]]
       (Some [PTuple [PInt 0, PInt 0, PInt 0, PInt 1]])
     = [Brick (PStr ''3001'') (PTuple [PInt 0, PInt 0, PInt 0]) (PTuple [PInt 1, PInt 0, PInt 0, PInt 0]),
        Brick (PStr ''3002'') (PTuple [PInt 20, PInt 0, PInt 0]) (PTuple [PInt 1, PInt 0, PInt 0, PInt 0])] \<and>
   create_custom_assembly sample_visualize_bricks [PStr ''3001'', PStr ''3002'']
       [PTuple [PInt 0, PInt 0, PInt 0], PTuple [PInt 20, PInt 0, PInt 0]]
       (Some [PTuple [PInt 0, PInt 0, PInt 0, PInt 1]]) False
     = ([Brick (PStr ''3001'') (PTuple [PInt 0, PInt 0, PInt 0]) (PTuple [PInt 1, PInt 0, PInt 0, PInt 0]),
         Brick (PStr ''3002'') (PTuple [PInt 20, PInt 0, PInt 0]) (PTuple [PInt 1, PInt 0, PInt 0, PInt 0])],
        False, True)"
proof -
  have h: "length [PTuple [PInt 0, PInt 0, PInt 0, PInt 1]] \<noteq> length [PStr ''3001'', PStr ''3002'']"
    by simp
  from mismatched_rotations_are_discarded [OF h, of "[PTuple [PInt 0, PInt 0, PInt 0], PTuple [PInt 20, PInt 0, PInt 0]]" sample_visualize_bricks False]
  show ?thesis
    by (simp add: identity_rotation_def sample_visualize_bricks_def)
qed

lemma rfind_absent: "c \<notin> set s \<Longrightarrow> rfind c s = - 1"
  by (simp add: rfind_def)

lemma rfind_last: "c \<notin> set ys \<Longrightarrow> rfind c (xs @ c # ys) = int (length xs)"
proof -
  assume a: "c \<notin> set ys"
  then have "takeWhile (\<lambda>x. x \<noteq> c) (rev ys @ c # rev xs) = rev ys"
    by (subst takeWhile_append2) auto
  then show ?thesis by (simp add: rfind_def)
qed

lemma skip_leading_dots_found:
  "i \<le> k \<Longrightarrow> k < d \<Longrightarrow> d \<le> length p \<Longrightarrow> p ! k \<noteq> CHR ''.'' \<Longrightarrow>
     skip_leading_dots p i d = (take d p, drop d p)"
proof (induction p i d rule: skip_leading_dots.induct)
  case (1 p i d)
  show ?case
  proof (cases "take 1 (drop i p) \<noteq> ''.''")
    case True
    with "1.prems" show ?thesis by (subst skip_leading_dots.simps) simp
  next
    case False
    from "1.prems" have "i < length p" by simp
    then have "take 1 (drop i p) = [p ! i]"
      by (simp add: take_Suc_conv_app_nth [of 0] Cons_nth_drop_Suc [symmetric])
    with False have "p ! i = CHR ''.''" by simp
    with "1.prems" have "i \<noteq> k" by auto
    with "1.prems" have "i + 1 \<le> k" "i < d" by simp_all
    with "1.IH" [OF \<open>i < d\<close> _ \<open>i + 1 \<le> k\<close>] False "1.prems"
    have "skip_leading_dots p (i + 1) d = (take d p, drop d p)" by simp
    with False \<open>i < d\<close> show ?thesis by (subst skip_leading_dots.simps) simp
  qed
qed

section \<open>Theorems: \<^verbatim>\<open>export_to_file\<close>\<close>

lemma splitext_suffix:
  assumes ext: "CHR ''.'' \<notin> set ext" "CHR ''/'' \<notin> set ext"
    and name: "CHR ''/'' \<notin> set name" "\<exists>c\<in>set name. c \<noteq> CHR ''.''"
    and dir: "dir = [] \<or> last dir = CHR ''/''"
  shows "splitext (dir @ name @ ''.'' @ ext) = (dir @ name, ''.'' @ ext)"
proof -
  let ?p = "dir @ name @ ''.'' @ ext"
  have dot: "rfind CHR ''.'' ?p = int (length (dir @ name))"
    using rfind_last [OF ext(1), of "dir @ name"] by simp
  have sep: "rfind CHR ''/'' ?p + 1 = int (length dir)"
  proof (cases "dir = []")
    case True
    with ext(2) name(1) have "CHR ''/'' \<notin> set ?p" by simp
    with True show ?thesis by (simp add: rfind_absent)
  next
    case False
    with dir obtain d where d: "dir = d @ [CHR ''/'']"
      by (metis append_butlast_last_id)
    from ext(2) name(1) have "CHR ''/'' \<notin> set (name @ ''.'' @ ext)" by simp
    from rfind_last [OF this, of d] d show ?thesis by simp
  qed
  from name(2) obtain j where j: "j < length name" "name ! j \<noteq> CHR ''.''"
    by (auto simp: in_set_conv_nth)
  then have k: "?p ! (length dir + j) \<noteq> CHR ''.''"
    by (simp add: nth_append)
  have found: "skip_leading_dots ?p (length dir) (length (dir @ name))
      = (take (length (dir @ name)) ?p, drop (length (dir @ name)) ?p)"
    by (rule skip_leading_dots_found [of _ "length dir + j"]) (use j k in simp_all)
  from dot sep j have lt: "rfind CHR ''/'' ?p < rfind CHR ''.'' ?p" by simp
  from sep have n1: "nat (rfind CHR ''/'' ?p + 1) = length dir" by simp
  from dot have n2: "nat (rfind CHR ''.'' ?p) = length (dir @ name)" by simp
  from lt have "splitext ?p
      = skip_leading_dots ?p (nat (rfind CHR ''/'' ?p + 1)) (nat (rfind CHR ''.'' ?p))"
    by (simp add: splitext_def Let_def)
  also have "\<dots> = skip_leading_dots ?p (length dir) (length (dir @ name))"
    by (simp only: n1 n2)
  also note found
  also have "(take (length (dir @ name)) ?p, drop (length (dir @ name)) ?p) = (dir @ name, ''.'' @ ext)"
    by simp
  finally show ?thesis .
qed

text \<open>
  Claim C8, as amended. With \<^verbatim>\<open>format = None\<close> the format is the lower-cased suffix of the
  output path, the extension without its leading dot; a supplied format is taken as it
  is. When \<^verbatim>\<open>os.makedirs\<close> raises, nothing is exported. Otherwise \<^verbatim>\<open>mesh.export\<close> is called
  once, with this format as the file type when it is \<^verbatim>\<open>obj\<close>, \<^verbatim>\<open>ply\<close>, \<^verbatim>\<open>stl\<close> or \<^verbatim>\<open>glb\<close>,
  with \<^verbatim>\<open>glb\<close> when it is \<^verbatim>\<open>gltf\<close>, and without a file type for any other format. The
  format is printed only when \<^verbatim>\<open>mesh.export\<close> returns. The last conjunct spells the suffix
  out for a path \<open>dir @ name @ ''.'' @ ext\<close>.
\<close>

theorem export_format:
  "(let used = (case format of
                  None \<Rightarrow> lower (drop 1 (snd (splitext output_path)))
                | Some f \<Rightarrow> f);
        file_type = (if used = ''obj'' \<or> used = ''ply'' \<or> used = ''stl'' \<or> used = ''glb''
                     then Some used
                     else if used = ''gltf'' then Some ''glb''
                     else None);
        directory = (if dirname output_path \<noteq> [] then dirname output_path else ''.'');
        run = export_to_file makedirs mesh_export mesh output_path format
    in (\<forall>e. makedirs directory = Some e \<longrightarrow> run = ([Makedirs directory], Some e)) \<and>
       (\<forall>e. makedirs directory = None \<longrightarrow> mesh_export mesh output_path file_type = Some e \<longrightarrow>
          run = ([Makedirs directory, Export mesh output_path file_type], Some e)) \<and>
       (makedirs directory = None \<longrightarrow> mesh_export mesh output_path file_type = None \<longrightarrow>
          run = ([Makedirs directory, Export mesh output_path file_type,
                  Report output_path used (length (vertices mesh)) (length (faces mesh))],
                 None))) \<and>
   (CHR ''.'' \<notin> set ext \<and> CHR ''/'' \<notin> set ext \<and> CHR ''/'' \<notin> set name \<and>
    (\<exists>c\<in>set name. c \<noteq> CHR ''.'') \<and> (dir = [] \<or> last dir = CHR ''/'') \<longrightarrow>
      lower (drop 1 (snd (splitext (dir @ name @ ''.'' @ ext)))) = lower ext)"
proof (intro conjI impI)
  show "let used = (case format of
                  None \<Rightarrow> lower (drop 1 (snd (splitext output_path)))
                | Some f \<Rightarrow> f);
        file_type = (if used = ''obj'' \<or> used = ''ply'' \<or> used = ''stl'' \<or> used = ''glb''
                     then Some used
                     else if used = ''gltf'' then Some ''glb''
                     else None);
        directory = (if dirname output_path \<noteq> [] then dirname output_path else ''.'');
        run = export_to_file makedirs mesh_export mesh output_path format
    in (\<forall>e. makedirs directory = Some e \<longrightarrow> run = ([Makedirs directory], Some e)) \<and>
       (\<forall>e. makedirs directory = None \<longrightarrow> mesh_export mesh output_path file_type = Some e \<longrightarrow>
          run = ([Makedirs directory, Export mesh output_path file_type], Some e)) \<and>
       (makedirs directory = None \<longrightarrow> mesh_export mesh output_path file_type = None \<longrightarrow>
          run = ([Makedirs directory, Export mesh output_path file_type,
                  Report output_path used (length (vertices mesh)) (length (faces mesh))],
                 None))"
    by (simp add: export_to_file_def Let_def)
next
  assume "CHR ''.'' \<notin> set ext \<and> CHR ''/'' \<notin> set ext \<and> CHR ''/'' \<notin> set name \<and>
    (\<exists>c\<in>set name. c \<noteq> CHR ''.'') \<and> (dir = [] \<or> last dir = CHR ''/'')"
  then have "splitext (dir @ name @ ''.'' @ ext) = (dir @ name, ''.'' @ ext)"
    by (intro splitext_suffix) simp_all
  then show "lower (drop 1 (snd (splitext (dir @ name @ ''.'' @ ext)))) = lower ext"
    by simp
qed

theorem export_format_witness:
  "export_to_file sample_makedirs sample_mesh_export triangle ''out/Model.PLY'' None
     = ([Makedirs ''out'', Export triangle ''out/Model.PLY'' (Some ''ply''),
         Report ''out/Model.PLY'' ''ply'' 3 1], None) \<and>
   export_to_file sample_makedirs sample_mesh_export triangle ''out/model.foo'' None
     = ([Makedirs ''out'', Export triangle ''out/model.foo'' None], Some ValueError)"
proof -
  have h: "CHR ''.'' \<notin> set ''PLY'' \<and> CHR ''/'' \<notin> set ''PLY'' \<and> CHR ''/'' \<notin> set ''Model'' \<and>
    (\<exists>c\<in>set ''Model''. c \<noteq> CHR ''.'') \<and> (''out/'' = [] \<or> last ''out/'' = CHR ''/'')"
    by simp
  have l: "lower ''PLY'' = ''ply''" by code_simp
  have d: "dirname ''out/Model.PLY'' = ''out''" "dirname ''out/model.foo'' = ''out''"
    by code_simp+
  have m: "sample_makedirs ''out'' = None"
    by (simp add: sample_makedirs_def)
  have x: "sample_mesh_export triangle ''out/Model.PLY'' (Some ''ply'') = None"
    "sample_mesh_export triangle ''out/model.foo'' None = Some ValueError"
    by code_simp+
  have f: "lower (drop 1 (snd (splitext ''out/model.foo''))) = ''foo''"
    by code_simp
  from export_format [where ext = "''PLY''" and name = "''Model''" and dir = "''out/''"] h
  have s: "lower (drop 1 (snd (splitext ''out/Model.PLY''))) = lower ''PLY''"
    by simp
  from export_format [where format = None and output_path = "''out/Model.PLY''"
      and makedirs = sample_makedirs and mesh_export = sample_mesh_export and mesh = triangle]
    s l d m x
  have a: "export_to_file sample_makedirs sample_mesh_export triangle ''out/Model.PLY'' None
     = ([Makedirs ''out'', Export triangle ''out/Model.PLY'' (Some ''ply''),
         Report ''out/Model.PLY'' ''ply'' 3 1], None)"
    by (simp add: Let_def triangle_def)
  from export_format [where format = None and output_path = "''out/model.foo''"
      and makedirs = sample_makedirs and mesh_export = sample_mesh_export and mesh = triangle]
    f d m x
  have b: "export_to_file sample_makedirs sample_mesh_export triangle ''out/model.foo'' None
     = ([Makedirs ''out'', Export triangle ''out/model.foo'' None], Some ValueError)"
    by (simp add: Let_def)
  from a b show ?thesis ..
qed

text \<open>
  Claim C8 as stated fails. The supplied format \<^verbatim>\<open>dae\<close> is not handed to the exporter:
  the call is \<^verbatim>\<open>mesh.export('model.obj')\<close>, without a file type. The supplied format
  \<^verbatim>\<open>gltf\<close> is exported as \<^verbatim>\<open>glb\<close>, and so is the inferred suffix \<^verbatim>\<open>gltf\<close>.
\<close>

theorem supplied_format_is_not_always_used:
  "export_to_file sample_makedirs sample_mesh_export triangle ''model.obj'' (Some ''dae'')
     = ([Makedirs ''.'', Export triangle ''model.obj'' None, Report ''model.obj'' ''dae'' 3 1],
        None) \<and>
   export_to_file sample_makedirs sample_mesh_export triangle ''model.obj'' (Some ''gltf'')
     = ([Makedirs ''.'', Export triangle ''model.obj'' (Some ''glb''),
         Report ''model.obj'' ''gltf'' 3 1], None) \<and>
   lower (drop 1 (snd (splitext ''scene.GLTF''))) = ''gltf'' \<and>
   export_to_file sample_makedirs sample_mesh_export triangle ''scene.GLTF'' None
     = ([Makedirs ''.'', Export triangle ''scene.GLTF'' (Some ''glb''),
         Report ''scene.GLTF'' ''gltf'' 3 1], None)"
  by code_simp

end
